theory Spec2Isabelle
  imports Complex_Main "HOL-Library.Log_Nat"
begin

section \<open>Python values, exceptions and builtins\<close>

text \<open>
  Exceptions are values: a call that may raise returns \<open>exn + 'a\<close>, with \<open>Inl\<close> the
  exception.  An external call additionally threads the state \<open>'w\<close> of everything
  outside the process (the venue and the network).
\<close>

datatype exn =
    ZeroDivisionError
  | OverflowError
  | TypeError
  | ValueError
  | AttributeError
  | AccountNotInitializedError
  | OtherError string

text \<open>The values a decoded venue response is made of.\<close>

datatype pyval =
    PNone
  | PBool bool
  | PInt int
  | PFloat rat
  | PStr string
  | PList "pyval list"
  | PDict "(string \<times> pyval) list"

text \<open>Truth value of an object, as \<^verbatim>\<open>or\<close> and \<^verbatim>\<open>if\<close> test it.\<close>

fun truthy :: "pyval \<Rightarrow> bool" where
  "truthy PNone = False"
| "truthy (PBool b) = b"
| "truthy (PInt i) = (i \<noteq> 0)"
| "truthy (PFloat x) = (x \<noteq> 0)"
| "truthy (PStr s) = (s \<noteq> [])"
| "truthy (PList xs) = (xs \<noteq> [])"
| "truthy (PDict kvs) = (kvs \<noteq> [])"

text \<open>\<^verbatim>\<open>obj.get(key)\<close>: only a dict has the method; a missing key gives \<^verbatim>\<open>None\<close>.\<close>

fun py_get :: "pyval \<Rightarrow> string \<Rightarrow> exn + pyval" where
  "py_get (PDict kvs) k = Inr (case map_of kvs k of None \<Rightarrow> PNone | Some v \<Rightarrow> v)"
| "py_get _ k = Inl AttributeError"

text \<open>\<^verbatim>\<open>str(n)\<close> of an integer: its decimal digits, with a minus sign when negative.\<close>

fun nat_digits :: "nat \<Rightarrow> string" where
  "nat_digits n =
     (if n < 10 then [char_of (48 + n)] else nat_digits (n div 10) @ [char_of (48 + n mod 10)])"

declare nat_digits.simps [simp del]

definition py_str :: "int \<Rightarrow> string" where
  "py_str i = (if i < 0 then CHR ''-'' # nat_digits (nat (- i)) else nat_digits (nat i))"

text \<open>
  \<^verbatim>\<open>int(s)\<close> of a string: surrounding whitespace is stripped, one sign is allowed, and the
  digits may be grouped by single underscores; anything else raises \<^verbatim>\<open>ValueError\<close>.
\<close>

definition py_isspace :: "char \<Rightarrow> bool" where
  "py_isspace c \<longleftrightarrow> (of_char c :: nat) \<in> {9, 10, 11, 12, 13, 28, 29, 30, 31, 32, 133, 160}"

definition py_isdigit :: "char \<Rightarrow> bool" where
  "py_isdigit c \<longleftrightarrow> 48 \<le> (of_char c :: nat) \<and> (of_char c :: nat) \<le> 57"

fun parse_digits :: "nat \<Rightarrow> bool \<Rightarrow> string \<Rightarrow> nat option" where
  "parse_digits acc after_digit [] = (if after_digit then Some acc else None)"
| "parse_digits acc after_digit (c # cs) =
     (if py_isdigit c then parse_digits (10 * acc + (of_char c - 48)) True cs
      else if c = CHR ''_'' \<and> after_digit then parse_digits acc False cs
      else None)"

definition py_int :: "string \<Rightarrow> exn + int" where
  "py_int s =
     (let t = rev (dropWhile py_isspace (rev (dropWhile py_isspace s)));
          (neg, ds) = (case t of
                         c # r \<Rightarrow> if c = CHR ''-'' then (True, r)
                                  else if c = CHR ''+'' then (False, r) else (False, t)
                       | [] \<Rightarrow> (False, []))
      in case parse_digits 0 False ds of
           None \<Rightarrow> Inl ValueError
         | Some n \<Rightarrow> Inr (if neg then - int n else int n))"

section \<open>Float arithmetic\<close>

text \<open>
  A Python \<^verbatim>\<open>float\<close> is an IEEE 754 binary64 number.  A finite one is a rational
  \<open>m * 2 powi e\<close> with \<open>\<bar>m\<bar> < 2 ^ 53\<close> and \<open>- 1074 \<le> e\<close>, and every arithmetic operation
  returns the exact result rounded to the nearest such number, ties to the even
  significand.  \<open>fl\<close> is that rounding, with the exponent unbounded above: a result
  whose rounded magnitude reaches \<open>2 ^ 1024\<close> is an infinity in the code.  Prices, sizes
  and the tick size are finite floats.  Where the code raises on an infinity
  (\<^verbatim>\<open>math.floor\<close> of an overflowed quotient) the model has that branch; an infinity the
  code computes with silently is carried here as the finite number beyond the range,
  which compares with every finite float as the infinity does.
\<close>

definition round_half_even :: "rat \<Rightarrow> int" where
  "round_half_even x =
     (let f = \<lfloor>x\<rfloor>; d = x - of_int f
      in if d < 1 / 2 then f else if 1 / 2 < d then f + 1 else if even f then f else f + 1)"

text \<open>The exponent of the unit in the last place of the double nearest to \<open>x\<close>.\<close>

definition ulp_exp :: "rat \<Rightarrow> int" where
  "ulp_exp x =
     (let (n, d) = quotient_of \<bar>x\<bar>;
          e0 = bitlen n - bitlen d - 53;
          e = (if 2 ^ 53 \<le> \<bar>x\<bar> / 2 powi e0 then e0 + 1 else e0)
      in max (- 1074) e)"

definition fl :: "rat \<Rightarrow> rat" where
  "fl x = (if x = 0 then 0
           else of_int (round_half_even (x / 2 powi ulp_exp x)) * 2 powi ulp_exp x)"

definition fdiv :: "rat \<Rightarrow> rat \<Rightarrow> rat" where
  "fdiv a b = fl (a / b)"

definition fmul :: "rat \<Rightarrow> rat \<Rightarrow> rat" where
  "fmul a b = fl (a * b)"

definition fsub :: "rat \<Rightarrow> rat \<Rightarrow> rat" where
  "fsub a b = fl (a - b)"

text \<open>An \<^verbatim>\<open>int\<close> operand of a float operation is converted to a float first.\<close>

definition float_of_int :: "int \<Rightarrow> rat" where
  "float_of_int k = fl (of_int k)"

section \<open>limit_chase.py: data types and the order gateway\<close>

record Quote =
  ts_ms :: int
  bid_px :: rat
  bid_sz :: rat
  ask_px :: rat
  ask_sz :: rat

text \<open>
  The object \<^verbatim>\<open>LimitChaser\<close> holds in \<^verbatim>\<open>self.ex\<close> is used through three awaited methods
  only.  Each is a remote call: it reads and changes the outside world \<open>'w\<close>, and it
  returns or raises.
\<close>

record 'w gateway =
  place_limit :: "string \<Rightarrow> rat \<Rightarrow> rat \<Rightarrow> bool \<Rightarrow> string \<Rightarrow> 'w \<Rightarrow> (exn + string option) \<times> 'w"
  cancel :: "string \<Rightarrow> 'w \<Rightarrow> (exn + unit) \<times> 'w"
  poll_fill :: "string \<Rightarrow> 'w \<Rightarrow> (exn + bool) \<times> 'w"

section \<open>executor.py: the part of HyperliquidExecutor the client uses\<close>

text \<open>
  \<open>query_order_by_oid\<close> is the SDK call \<^verbatim>\<open>self.exchange.info.query_order_by_oid\<close>.
  \<open>execute_limit_order\<close> and \<open>cancel_order\<close> are the executor's methods of that name
  (symbol, is_buy, size_in_asset, limit_price, and symbol, order_id); what they do with
  the venue is left open here, so every result and every exception is possible.
\<close>

record 'w HyperliquidExecutor =
  address :: string
  query_order_by_oid :: "string \<Rightarrow> int \<Rightarrow> 'w \<Rightarrow> (exn + pyval) \<times> 'w"
  execute_limit_order :: "string \<Rightarrow> bool \<Rightarrow> rat \<Rightarrow> rat \<Rightarrow> 'w \<Rightarrow> (exn + int option) \<times> 'w"
  cancel_order :: "string \<Rightarrow> int \<Rightarrow> 'w \<Rightarrow> (exn + bool) \<times> 'w"

text \<open>\<^verbatim>\<open>get_order_status\<close>: the venue's answer, or \<^verbatim>\<open>None\<close> when the query raised.\<close>

definition get_order_status :: "'w HyperliquidExecutor \<Rightarrow> int \<Rightarrow> 'w \<Rightarrow> pyval \<times> 'w" where
  "get_order_status exr oid w =
     (case query_order_by_oid exr (address exr) oid w of
        (Inr status, w') \<Rightarrow> (status, w')
      | (Inl e, w') \<Rightarrow> (PNone, w'))"

section \<open>limit_chase.py: LiveExchangeClient\<close>

record 'w LiveExchangeClient =
  executor :: "'w HyperliquidExecutor"
  coin :: string

definition LiveExchangeClient_place_limit ::
  "'w LiveExchangeClient \<Rightarrow> string \<Rightarrow> rat \<Rightarrow> rat \<Rightarrow> bool \<Rightarrow> string \<Rightarrow> 'w \<Rightarrow> (exn + string option) \<times> 'w"
where
  "LiveExchangeClient_place_limit cl sd price sz po tif w =
     (let is_buy = (sd = ''buy'') in
      case execute_limit_order (executor cl) (coin cl) is_buy sz price w of
        (Inl e, w') \<Rightarrow> (Inl e, w')
      | (Inr None, w') \<Rightarrow> (Inr None, w')
      | (Inr (Some oid), w') \<Rightarrow> (Inr (Some (py_str oid)), w'))"

definition LiveExchangeClient_cancel ::
  "'w LiveExchangeClient \<Rightarrow> string \<Rightarrow> 'w \<Rightarrow> (exn + unit) \<times> 'w"
where
  "LiveExchangeClient_cancel cl oid w =
     (case py_int oid of
        Inl e \<Rightarrow> (Inl e, w)
      | Inr n \<Rightarrow>
          (case cancel_order (executor cl) (coin cl) n w of
             (Inl e, w') \<Rightarrow> (Inl e, w')
           | (Inr _, w') \<Rightarrow> (Inr (), w')))"

definition LiveExchangeClient_poll_fill ::
  "'w LiveExchangeClient \<Rightarrow> string \<Rightarrow> 'w \<Rightarrow> (exn + bool) \<times> 'w"
where
  "LiveExchangeClient_poll_fill cl oid w =
     (case py_int oid of
        Inl e \<Rightarrow> (Inl e, w)
      | Inr n \<Rightarrow>
          (case get_order_status (executor cl) n w of
             (order_status, w') \<Rightarrow>
               if order_status = PNone then (Inr False, w')
               else
                 (case py_get order_status ''status'' of
                    Inl e \<Rightarrow> (Inl e, w')
                  | Inr first \<Rightarrow>
                      if truthy first then (Inr (first = PStr ''filled''), w')
                      else
                        (case py_get order_status ''order'' of
                           Inl e \<Rightarrow> (Inl e, w')
                         | Inr nested \<Rightarrow>
                             (case py_get (if truthy nested then nested else PDict []) ''status'' of
                                Inl e \<Rightarrow> (Inl e, w')
                              | Inr status \<Rightarrow> (Inr (status = PStr ''filled''), w'))))))"

text \<open>The client as the gateway a \<^verbatim>\<open>LimitChaser\<close> is constructed with.\<close>

definition live_gateway :: "'w LiveExchangeClient \<Rightarrow> 'w gateway" where
  "live_gateway cl =
     \<lparr> place_limit = LiveExchangeClient_place_limit cl,
       cancel = LiveExchangeClient_cancel cl,
       poll_fill = LiveExchangeClient_poll_fill cl \<rparr>"

section \<open>limit_chase.py: LimitChaser\<close>

record 'w LimitChaser =
  ex :: "'w gateway"
  tick_size :: rat
  side :: string
  order_size :: rat
  post_only :: bool
  tolerance_ticks :: rat
  max_age_ms :: int
  max_chase_ticks :: rat
  order_id :: "string option"
  order_px :: "rat option"
  start_px :: "rat option"
  placed_ts :: "int option"

definition LimitChaser_init ::
  "'w gateway \<Rightarrow> rat \<Rightarrow> string \<Rightarrow> rat \<Rightarrow> bool \<Rightarrow> rat \<Rightarrow> int \<Rightarrow> rat \<Rightarrow> 'w LimitChaser"
where
  "LimitChaser_init g tick sd sz po tol age chase =
     \<lparr> ex = g, tick_size = tick, side = sd, order_size = sz, post_only = po,
       tolerance_ticks = tol, max_age_ms = age, max_chase_ticks = chase,
       order_id = None, order_px = None, start_px = None, placed_ts = None \<rparr>"

text \<open>
  \<^verbatim>\<open>math.floor(px / self.tick_size) * self.tick_size\<close>: the division raises on a zero
  tick, and \<^verbatim>\<open>math.floor\<close> raises \<^verbatim>\<open>OverflowError\<close> when the quotient has overflowed to an
  infinity.
\<close>

definition round_to_tick :: "'w LimitChaser \<Rightarrow> rat \<Rightarrow> exn + rat" where
  "round_to_tick c px =
     (if tick_size c = 0 then Inl ZeroDivisionError
      else if 2 ^ 1024 \<le> \<bar>fdiv px (tick_size c)\<bar> then Inl OverflowError
      else Inr (fmul (float_of_int \<lfloor>fdiv px (tick_size c)\<rfloor>) (tick_size c)))"

definition reset :: "'w LimitChaser \<Rightarrow> 'w LimitChaser" where
  "reset c = c\<lparr>order_id := None, order_px := None, start_px := None, placed_ts := None\<rparr>"

text \<open>
  \<^verbatim>\<open>on_quote\<close> returns the outcome (\<^verbatim>\<open>"filled"\<close>, \<^verbatim>\<open>"aborted"\<close> or \<^verbatim>\<open>None\<close>) or the
  exception that left it, together with the chaser as the call left it and the outside
  world.  Printing is not modelled, except that formatting \<^verbatim>\<open>self.order_px\<close> with
  \<^verbatim>\<open>:.2f\<close> raises when the field is \<^verbatim>\<open>None\<close>, as does arithmetic on a \<^verbatim>\<open>None\<close> field.
\<close>

definition on_quote ::
  "'w LimitChaser \<Rightarrow> Quote \<Rightarrow> 'w \<Rightarrow> (exn + string option) \<times> 'w LimitChaser \<times> 'w"
where
  "on_quote c q w =
     (let now = ts_ms q in
      case round_to_tick c (if side c = ''buy'' then bid_px q else ask_px q) of
        Inl e \<Rightarrow> (Inl e, c, w)
      | Inr target_px \<Rightarrow>
          (case order_id c of
             None \<Rightarrow>
               (let c1 = c\<lparr>start_px := Some target_px, order_px := Some target_px\<rparr> in
                case place_limit (ex c) (side c) target_px (order_size c) (post_only c) ''GTC'' w of
                  (Inl e, w') \<Rightarrow> (Inl e, c1, w')
                | (Inr new_id, w') \<Rightarrow> (Inr None, c1\<lparr>order_id := new_id, placed_ts := Some now\<rparr>, w'))
           | Some oid \<Rightarrow>
               (case poll_fill (ex c) oid w of
                  (Inl e, w1) \<Rightarrow> (Inl e, c, w1)
                | (Inr filled, w1) \<Rightarrow>
                    if filled then
                      (case order_px c of
                         None \<Rightarrow> (Inl TypeError, c, w1)
                       | Some _ \<Rightarrow> (Inr (Some ''filled''), reset c, w1))
                    else
                      (case (order_px c, placed_ts c, start_px c) of
                         (Some opx, Some pts, Some spx) \<Rightarrow>
                           (let drift_ticks = fdiv \<bar>fsub target_px opx\<bar> (tick_size c);
                                age_ms = now - pts;
                                total_chase_ticks = fdiv \<bar>fsub target_px spx\<bar> (tick_size c);
                                should_refresh =
                                  (tolerance_ticks c \<le> drift_ticks \<or> max_age_ms c \<le> age_ms);
                                should_abort = (max_chase_ticks c < total_chase_ticks)
                            in
                              if should_abort then
                                (case cancel (ex c) oid w1 of
                                   (Inl e, w2) \<Rightarrow> (Inl e, c, w2)
                                 | (Inr _, w2) \<Rightarrow> (Inr (Some ''aborted''), reset c, w2))
                              else if should_refresh then
                                (case cancel (ex c) oid w1 of
                                   (Inl e, w2) \<Rightarrow> (Inl e, c, w2)
                                 | (Inr _, w2) \<Rightarrow>
                                     (case place_limit (ex c) (side c) target_px (order_size c)
                                             (post_only c) ''GTC'' w2 of
                                        (Inl e, w3) \<Rightarrow> (Inl e, c, w3)
                                      | (Inr new_id, w3) \<Rightarrow>
                                          (Inr None,
                                           c\<lparr>order_id := new_id, order_px := Some target_px,
                                             placed_ts := Some now\<rparr>,
                                           w3)))
                              else (Inr None, c, w1))
                       | _ \<Rightarrow> (Inl TypeError, c, w1)))))"

section \<open>limit_chase_usage.py: the consumer loop\<close>

definition TICK_SIZE :: rat where "TICK_SIZE = 1 / 2"
definition REFRESH_INTERVAL_MS :: int where "REFRESH_INTERVAL_MS = 500"
definition TOLERANCE_TICKS :: rat where "TOLERANCE_TICKS = 1"
definition MAX_AGE_MS :: int where "MAX_AGE_MS = 5000"
definition MAX_CHASE_TICKS :: rat where "MAX_CHASE_TICKS = 10"
definition SIDE :: string where "SIDE = ''buy''"
definition ORDER_SIZE :: rat where "ORDER_SIZE = fl (2 / 10000)"

text \<open>
  How \<^verbatim>\<open>consumer\<close> ends: it returns the terminal outcome, an exception leaves it, or the
  queue has been drained and it waits in \<^verbatim>\<open>q.get()\<close> for a quote that has not come.
\<close>

datatype run = Returned string | Raised exn | Waiting

text \<open>
  The loop over the quotes the queue delivers, in order.  \<open>eng\<close> is the awaited
  \<^verbatim>\<open>chaser.on_quote\<close> acting on the state \<open>'s\<close> it owns; the result carries the final
  \<^verbatim>\<open>last_check\<close>.
\<close>

fun consumer ::
  "(Quote \<Rightarrow> 's \<Rightarrow> (exn + string option) \<times> 's) \<Rightarrow> int \<Rightarrow> Quote list \<Rightarrow> int \<Rightarrow> 's \<Rightarrow> run \<times> int \<times> 's"
where
  "consumer eng interval [] last_check s = (Waiting, last_check, s)"
| "consumer eng interval (quote # rest) last_check s =
     (let now = ts_ms quote in
      if now - last_check < interval then consumer eng interval rest last_check s
      else
        (case eng quote s of
           (Inl e, s') \<Rightarrow> (Raised e, last_check, s')
         | (Inr out, s') \<Rightarrow>
             if out = Some ''filled'' \<or> out = Some ''aborted'' then (Returned (the out), now, s')
             else consumer eng interval rest now s'))"

text \<open>\<^verbatim>\<open>run\<close> starts the loop with \<^verbatim>\<open>last_check = 0\<close> on the chaser it has built.\<close>

definition run_consumer ::
  "'w LimitChaser \<Rightarrow> Quote list \<Rightarrow> 'w \<Rightarrow> run \<times> int \<times> 'w LimitChaser \<times> 'w"
where
  "run_consumer c quotes w =
     consumer (\<lambda>q (c', w'). on_quote c' q w') REFRESH_INTERVAL_MS quotes 0 (c, w)"

section \<open>Observing calls\<close>

text \<open>
  \<^verbatim>\<open>CountingLiveExchangeClient\<close> of test_limit_chase.py wraps a gateway, counts the calls
  and forwards them unchanged.  \<open>recording\<close> is the same wrapper keeping the calls
  themselves, with their arguments and results, in the order they were made.
\<close>

datatype call =
    Place string rat rat bool string "exn + string option"
  | Cancel string "exn + unit"
  | Poll string "exn + bool"

fun is_place :: "call \<Rightarrow> bool" where
  "is_place (Place sd px sz po tif r) = True"
| "is_place _ = False"

definition recording :: "'w gateway \<Rightarrow> ('w \<times> call list) gateway" where
  "recording g =
     \<lparr> place_limit = (\<lambda>sd px sz po tif (w, calls).
          case place_limit g sd px sz po tif w of
            (r, w') \<Rightarrow> (r, (w', calls @ [Place sd px sz po tif r]))),
       cancel = (\<lambda>oid (w, calls).
          case cancel g oid w of (r, w') \<Rightarrow> (r, (w', calls @ [Cancel oid r]))),
       poll_fill = (\<lambda>oid (w, calls).
          case poll_fill g oid w of (r, w') \<Rightarrow> (r, (w', calls @ [Poll oid r]))) \<rparr>"

text \<open>The same for the engine behind the dispatcher: the quotes it was called with.\<close>

definition logging ::
  "(Quote \<Rightarrow> 's \<Rightarrow> 'r \<times> 's) \<Rightarrow> Quote \<Rightarrow> Quote list \<times> 's \<Rightarrow> 'r \<times> Quote list \<times> 's"
where
  "logging eng q = (\<lambda>(seen, s). case eng q s of (r, s') \<Rightarrow> (r, seen @ [q], s'))"

text \<open>
  The orders the engine has a right to believe live: an order is live from the return
  of the \<^verbatim>\<open>place_limit\<close> that gave its id until a \<^verbatim>\<open>cancel\<close> of that id returns or a
  \<^verbatim>\<open>poll_fill\<close> reports it filled.
\<close>

fun live_step :: "string set \<Rightarrow> call \<Rightarrow> string set" where
  "live_step L (Place sd px sz po tif (Inr (Some oid))) = insert oid L"
| "live_step L (Cancel oid (Inr u)) = L - {oid}"
| "live_step L (Poll oid (Inr True)) = L - {oid}"
| "live_step L _ = L"

fun single_live :: "string set \<Rightarrow> call list \<Rightarrow> bool" where
  "single_live L [] \<longleftrightarrow> card L \<le> 1"
| "single_live L (ev # calls) \<longleftrightarrow> card L \<le> 1 \<and> single_live (live_step L ev) calls"

section \<open>Vocabulary of the specification\<close>

text \<open>Idle and Resting as the specification describes them: all four fields together.\<close>

definition idle :: "'w LimitChaser \<Rightarrow> bool" where
  "idle c \<longleftrightarrow> order_id c = None \<and> order_px c = None \<and> start_px c = None \<and> placed_ts c = None"

definition resting :: "'w LimitChaser \<Rightarrow> bool" where
  "resting c \<longleftrightarrow>
     order_id c \<noteq> None \<and> order_px c \<noteq> None \<and> start_px c \<noteq> None \<and> placed_ts c \<noteq> None"

text \<open>A tracked order always comes with its prices and its placement time.\<close>

definition tracked_complete :: "'w LimitChaser \<Rightarrow> bool" where
  "tracked_complete c \<longleftrightarrow>
     (order_id c = None \<or> (order_px c \<noteq> None \<and> start_px c \<noteq> None \<and> placed_ts c \<noteq> None))"

text \<open>
  The abort condition \<open>total_chase_ticks > max_chase_ticks\<close> and the refresh condition
  \<open>drift_ticks \<ge> tolerance_ticks or age_ms \<ge> max_age_ms\<close>, for a target price and a quote
  time.
\<close>

definition abort_condition :: "'w LimitChaser \<Rightarrow> rat \<Rightarrow> bool" where
  "abort_condition c target \<longleftrightarrow>
     (case start_px c of
        None \<Rightarrow> False
      | Some spx \<Rightarrow> max_chase_ticks c < fdiv \<bar>fsub target spx\<bar> (tick_size c))"

definition refresh_condition :: "'w LimitChaser \<Rightarrow> rat \<Rightarrow> int \<Rightarrow> bool" where
  "refresh_condition c target now \<longleftrightarrow>
     (case (order_px c, placed_ts c) of
        (Some opx, Some pts) \<Rightarrow>
          tolerance_ticks c \<le> fdiv \<bar>fsub target opx\<bar> (tick_size c) \<or> max_age_ms c \<le> now - pts
      | _ \<Rightarrow> False)"



section \<open>Gateways and executors for worked examples\<close>

text \<open>A gateway that answers each call with the next reply of a script.\<close>

record script =
  place_replies :: "(exn + string option) list"
  cancel_replies :: "(exn + unit) list"
  poll_replies :: "(exn + bool) list"

definition scripted :: "script gateway" where
  "scripted =
     \<lparr> place_limit = (\<lambda>sd px sz po tif w.
          case place_replies w of
            [] \<Rightarrow> (Inr None, w)
          | r # rs \<Rightarrow> (r, w\<lparr>place_replies := rs\<rparr>)),
       cancel = (\<lambda>oid w.
          case cancel_replies w of
            [] \<Rightarrow> (Inr (), w)
          | r # rs \<Rightarrow> (r, w\<lparr>cancel_replies := rs\<rparr>)),
       poll_fill = (\<lambda>oid w.
          case poll_replies w of
            [] \<Rightarrow> (Inr False, w)
          | r # rs \<Rightarrow> (r, w\<lparr>poll_replies := rs\<rparr>)) \<rparr>"

text \<open>
  An executor over a venue whose state is the answer it gives to a status query and the
  direction of the last order it received; it accepts every order under the id 7.
\<close>

definition canned_executor :: "((exn + pyval) \<times> bool option) HyperliquidExecutor" where
  "canned_executor =
     \<lparr> address = ''0xabc'',
       query_order_by_oid = (\<lambda>a n w. (fst w, w)),
       execute_limit_order = (\<lambda>sym is_buy sz px w. (Inr (Some 7), (fst w, Some is_buy))),
       cancel_order = (\<lambda>sym n w. (Inr True, w)) \<rparr>"

definition live_example :: "((exn + pyval) \<times> bool option) LiveExchangeClient" where
  "live_example = \<lparr>executor = canned_executor, coin = ''BTC''\<rparr>"

text \<open>
  The calls one \<^verbatim>\<open>on_quote\<close> can make, given the tracked order before and after it:
  nothing, one placement from Idle, one poll, a poll and a cancel, or a poll, a
  cancel that returned and a placement.
\<close>

definition step_shape :: "string option \<Rightarrow> call list \<Rightarrow> string option \<Rightarrow> bool" where
  "step_shape before calls after \<longleftrightarrow>
     (calls = [] \<and> after = before) \<or>
     (before = None \<and>
        (\<exists>sd px sz po tif r. calls = [Place sd px sz po tif r] \<and>
           after = (case r of Inl e \<Rightarrow> None | Inr new_id \<Rightarrow> new_id))) \<or>
     (\<exists>oid. before = Some oid \<and>
        ((\<exists>r. calls = [Poll oid r] \<and> (after = before \<or> r = Inr True \<and> after = None)) \<or>
         (\<exists>r. calls = [Poll oid (Inr False), Cancel oid r] \<and>
            after = (case r of Inl e \<Rightarrow> before | Inr u \<Rightarrow> None)) \<or>
         (\<exists>u sd px sz po tif r.
            calls = [Poll oid (Inr False), Cancel oid (Inr u), Place sd px sz po tif r] \<and>
            after = (case r of Inl e \<Rightarrow> before | Inr new_id \<Rightarrow> new_id))))"

text \<open>The chaser of limit_chase_usage.py as constructed, over the scripted gateway.\<close>

definition idle_example :: "script LimitChaser" where
  "idle_example =
     LimitChaser_init scripted TICK_SIZE SIDE ORDER_SIZE True TOLERANCE_TICKS MAX_AGE_MS
       MAX_CHASE_TICKS"

text \<open>A chaser with the configuration of limit_chase_usage.py, resting at 100.0.\<close>

definition resting_example :: "(script \<times> call list) LimitChaser" where
  "resting_example =
     (LimitChaser_init (recording scripted) TICK_SIZE SIDE ORDER_SIZE True TOLERANCE_TICKS
        MAX_AGE_MS MAX_CHASE_TICKS)
       \<lparr>order_id := Some ''7'', order_px := Some 100, start_px := Some 100,
        placed_ts := Some 1000\<rparr>"

definition quote_at :: "int \<Rightarrow> rat \<Rightarrow> Quote" where
  "quote_at t bid = \<lparr>ts_ms = t, bid_px = bid, bid_sz = 1, ask_px = bid + 1 / 2, ask_sz = 1\<rparr>"

definition replies :: "(exn + string option) list \<Rightarrow> (exn + bool) list \<Rightarrow> script" where
  "replies places polls = \<lparr>place_replies = places, cancel_replies = [], poll_replies = polls\<rparr>"

section \<open>Order ids survive \<^verbatim>\<open>str\<close> and \<^verbatim>\<open>int\<close>\<close>

text \<open>
  The live client hands out \<^verbatim>\<open>str(oid)\<close> and later calls \<^verbatim>\<open>int\<close> on it: that conversion
  gives the number back and never raises.
\<close>

lemma digit_char:
  fixes d :: nat
  assumes "d < 10"
  shows "py_isdigit (char_of (48 + d))" and "of_char (char_of (48 + d)) - 48 = d"
    and "\<not> py_isspace (char_of (48 + d))"
    and "char_of (48 + d) \<noteq> CHR ''-''" and "char_of (48 + d) \<noteq> CHR ''+''"
proof -
  have v: "of_char (char_of (48 + d)) = 48 + d"
    using assms by (simp add: of_char_of)
  show "py_isdigit (char_of (48 + d))" using assms by (simp add: py_isdigit_def v)
  show "of_char (char_of (48 + d)) - 48 = d" by (simp only: v diff_add_inverse)
  show "\<not> py_isspace (char_of (48 + d))" using assms by (auto simp add: py_isspace_def v)
  have "of_char (char_of (48 + d)) \<noteq> (of_char CHR ''-'' :: nat)"
    using assms by (simp add: v)
  then show "char_of (48 + d) \<noteq> CHR ''-''" by metis
  have "of_char (char_of (48 + d)) \<noteq> (of_char CHR ''+'' :: nat)"
    using assms by (simp add: v)
  then show "char_of (48 + d) \<noteq> CHR ''+''" by metis
qed

lemma nat_digits_parse:
  "parse_digits acc b (nat_digits n @ cs)
     = parse_digits (acc * 10 ^ length (nat_digits n) + n) True cs"
proof (induction n arbitrary: acc b cs rule: nat_digits.induct)
  case (1 n)
  show ?case
  proof (cases "n < 10")
    case True
    then show ?thesis
      by (subst (1 2) nat_digits.simps) (simp add: digit_char mult.commute)
  next
    case False
    have m: "n mod 10 < 10" by simp
    have "parse_digits acc b (nat_digits n @ cs)
            = parse_digits acc b (nat_digits (n div 10) @ (char_of (48 + n mod 10) # cs))"
      using False by (subst nat_digits.simps) simp
    also have "\<dots> = parse_digits (acc * 10 ^ length (nat_digits (n div 10)) + n div 10) True
                        (char_of (48 + n mod 10) # cs)"
      using "1.IH" [OF False] by simp
    also have "\<dots> = parse_digits
                        (10 * (acc * 10 ^ length (nat_digits (n div 10)) + n div 10) + n mod 10)
                        True cs"
      by (simp add: digit_char [OF m])
    also have "10 * (acc * 10 ^ length (nat_digits (n div 10)) + n div 10) + n mod 10
                 = acc * 10 ^ length (nat_digits n) + n"
    proof -
      have "length (nat_digits n) = Suc (length (nat_digits (n div 10)))"
        using False by (subst nat_digits.simps) simp
      then show ?thesis by (simp add: algebra_simps)
    qed
    finally show ?thesis .
  qed
qed

lemma nat_digits_ends:
  "nat_digits n \<noteq> []"
  "\<not> py_isspace (hd (nat_digits n))"
  "\<not> py_isspace (last (nat_digits n))"
  "hd (nat_digits n) \<noteq> CHR ''-''"
  "hd (nat_digits n) \<noteq> CHR ''+''"
proof -
  show ne: "nat_digits n \<noteq> []" for n
    by (subst nat_digits.simps) simp
  have l: "last (nat_digits n) = char_of (48 + n mod 10)"
    by (subst nat_digits.simps) simp
  show "\<not> py_isspace (last (nat_digits n))"
    unfolding l by (rule digit_char) simp
  have h: "\<exists>d :: nat. d < 10 \<and> hd (nat_digits n) = char_of (48 + d)"
  proof (induction n rule: nat_digits.induct)
    case (1 n)
    show ?case
    proof (cases "n < 10")
      case True
      then show ?thesis by (subst nat_digits.simps) auto
    next
      case False
      have "hd (nat_digits n) = hd (nat_digits (n div 10))"
        using False ne [of "n div 10"] by (subst nat_digits.simps) simp
      then show ?thesis using "1.IH" [OF False] by simp
    qed
  qed
  then obtain d :: nat where d: "d < 10" "hd (nat_digits n) = char_of (48 + d)" by blast
  show "\<not> py_isspace (hd (nat_digits n))" "hd (nat_digits n) \<noteq> CHR ''-''"
    "hd (nat_digits n) \<noteq> CHR ''+''"
    unfolding d(2) by (rule digit_char [OF d(1)])+
qed

lemma strip_unchanged:
  assumes "s \<noteq> []" "\<not> py_isspace (hd s)" "\<not> py_isspace (last s)"
  shows "rev (dropWhile py_isspace (rev (dropWhile py_isspace s))) = s"
proof -
  have "dropWhile py_isspace s = s"
    using assms by (cases s) simp_all
  moreover have "dropWhile py_isspace (rev s) = rev s"
    using assms by (cases "rev s") (simp_all add: hd_rev)
  ultimately show ?thesis by simp
qed

lemma py_int_py_str: "py_int (py_str i) = Inr i"
proof (cases "i < 0")
  case True
  let ?n = "nat (- i)"
  have s: "py_str i = CHR ''-'' # nat_digits ?n" using True by (simp add: py_str_def)
  have sp: "\<not> py_isspace CHR ''-''" by (simp add: py_isspace_def)
  have strip: "rev (dropWhile py_isspace (rev (dropWhile py_isspace (py_str i)))) = py_str i"
    unfolding s
    by (rule strip_unchanged) (simp_all add: sp nat_digits_ends)
  have p: "parse_digits 0 False (nat_digits ?n) = Some ?n"
    using nat_digits_parse [of 0 False ?n "[]"] by simp
  show ?thesis
    unfolding py_int_def strip using True by (simp add: s p)
next
  case False
  let ?n = "nat i"
  have s: "py_str i = nat_digits ?n" using False by (simp add: py_str_def)
  have strip: "rev (dropWhile py_isspace (rev (dropWhile py_isspace (py_str i)))) = py_str i"
    unfolding s by (rule strip_unchanged) (simp_all add: nat_digits_ends)
  have p: "parse_digits 0 False (nat_digits ?n) = Some ?n"
    using nat_digits_parse [of 0 False ?n "[]"] by simp
  obtain c r where cr: "nat_digits ?n = c # r" "c \<noteq> CHR ''-''" "c \<noteq> CHR ''+''"
    using nat_digits_ends(1,4,5) [of ?n] by (cases "nat_digits ?n") auto
  show ?thesis
    unfolding py_int_def strip using False p by (simp add: s cr)
qed


lemma live_ids_parse:
  assumes "LiveExchangeClient_place_limit cl sd px sz po tif w = (Inr (Some oid), w')"
  shows "\<exists>n. py_int oid = Inr n"
  using assms
  by (auto simp add: LiveExchangeClient_place_limit_def py_int_py_str
      split: prod.splits sum.splits option.splits)

section \<open>Rounding is exact on doubles\<close>

lemma round_half_even_of_int: "round_half_even (of_int k) = k"
  by (simp add: round_half_even_def)

lemma quotient_lower:
  fixes n d :: int
  assumes "0 < n" "0 < d"
  shows "(2::rat) ^ 52 < (of_int n / of_int d) / 2 powi (bitlen n - bitlen d - 53)"
proof -
  have bn: "2 ^ nat (bitlen n - 1) \<le> n" and bd: "d < 2 ^ nat (bitlen d)"
    using bitlen_bounds [OF assms(1)] bitlen_bounds [OF assms(2)] by simp_all
  have n1: "1 \<le> bitlen n" using assms(1) by (simp add: bitlen_alt_def)
  have d0: "0 \<le> bitlen d" by (rule bitlen_nonneg)
  have "(2::rat) powi (bitlen n - 1) \<le> of_int n"
  proof -
    have "(of_int (2 ^ nat (bitlen n - 1)) :: rat) \<le> of_int n"
      using bn by (simp only: of_int_le_iff)
    then show ?thesis using n1 by (simp add: power_int_nonneg_exp)
  qed
  moreover have "(of_int d :: rat) < 2 powi (bitlen d)"
  proof -
    have "(of_int d :: rat) < of_int (2 ^ nat (bitlen d))"
      using bd by (simp only: of_int_less_iff)
    then show ?thesis using d0 by (simp add: power_int_nonneg_exp)
  qed
  ultimately have "(2::rat) powi (bitlen n - 1) / 2 powi (bitlen d) < of_int n / of_int d"
    using assms by (intro frac_less2) simp_all
  moreover have "(2::rat) powi (bitlen n - 1) / 2 powi (bitlen d) = 2 ^ 52 * 2 powi (bitlen n - bitlen d - 53)"
  proof -
    have "bitlen n - 1 = 52 + (bitlen n - bitlen d - 53) + bitlen d" by simp
    then have "(2::rat) powi (bitlen n - 1) = 2 powi 52 * 2 powi (bitlen n - bitlen d - 53) * 2 powi bitlen d"
      by (simp only: power_int_add [of "2::rat", simplified])
    then show ?thesis by simp
  qed
  ultimately have "(2::rat) ^ 52 * 2 powi (bitlen n - bitlen d - 53) < of_int n / of_int d"
    by simp
  moreover have "(0::rat) < 2 powi (bitlen n - bitlen d - 53)" by simp
  ultimately show ?thesis
    by (simp only: pos_less_divide_eq)
qed

lemma ulp_exp_lower:
  assumes "x \<noteq> 0"
  shows "\<exists>e. ulp_exp x = max (- 1074) e \<and> 2 ^ 52 * 2 powi e \<le> \<bar>x\<bar>"
proof -
  obtain n d where q: "quotient_of \<bar>x\<bar> = (n, d)" by (cases "quotient_of \<bar>x\<bar>")
  then have d: "0 < d" and x: "\<bar>x\<bar> = of_int n / of_int d"
    using quotient_of_denom_pos quotient_of_div by blast+
  have n: "0 < n"
  proof -
    have "0 < \<bar>x\<bar>" using assms by simp
    then have "0 < (of_int n :: rat) / of_int d" using x by simp
    then show ?thesis using d by (simp add: zero_less_divide_iff)
  qed
  let ?e0 = "bitlen n - bitlen d - 53"
  have low: "2 ^ 52 < \<bar>x\<bar> / 2 powi ?e0"
    using quotient_lower [OF n d] x by simp
  show ?thesis
  proof (cases "2 ^ 53 \<le> \<bar>x\<bar> / 2 powi ?e0")
    case True
    then have "ulp_exp x = max (- 1074) (?e0 + 1)"
      by (simp add: ulp_exp_def q)
    moreover have "2 ^ 52 * 2 powi (?e0 + 1) \<le> \<bar>x\<bar>"
    proof -
      have "(2::rat) ^ 53 * 2 powi ?e0 \<le> \<bar>x\<bar>"
        using True by (simp add: pos_le_divide_eq)
      moreover have "(2::rat) powi (?e0 + 1) = 2 powi ?e0 * 2"
        by (rule power_int_add_1) simp
      ultimately show ?thesis by (simp only: mult.assoc [symmetric]) simp
    qed
    ultimately show ?thesis by blast
  next
    case False
    then have "ulp_exp x = max (- 1074) ?e0"
      by (simp add: ulp_exp_def q)
    moreover have "2 ^ 52 * 2 powi ?e0 \<le> \<bar>x\<bar>"
      using low by (simp add: pos_less_divide_eq)
    ultimately show ?thesis by blast
  qed
qed

lemma fl_exact:
  assumes m: "\<bar>m\<bar> < 2 ^ 53" and e: "- 1074 \<le> e"
  shows "fl (of_int m * 2 powi e) = of_int m * 2 powi e"
proof (cases "m = 0")
  case True
  then show ?thesis by (simp add: fl_def)
next
  case False
  let ?x = "of_int m * 2 powi e :: rat"
  have x0: "?x \<noteq> 0" using False by simp
  obtain e' where E: "ulp_exp ?x = max (- 1074) e'" and low: "2 ^ 52 * 2 powi e' \<le> \<bar>?x\<bar>"
    using ulp_exp_lower [OF x0] by blast
  have "\<bar>?x\<bar> < 2 ^ 53 * 2 powi e"
  proof -
    have "(of_int \<bar>m\<bar> :: rat) < of_int (2 ^ 53)" using m by (simp only: of_int_less_iff)
    then show ?thesis by (simp add: abs_mult power_int_abs)
  qed
  with low have "(2::rat) ^ 52 * 2 powi e' < 2 ^ 53 * 2 powi e" by simp
  moreover have "(2::rat) powi (e + 1) = 2 powi e * 2"
    by (rule power_int_add_1) simp
  ultimately have "(2::rat) powi e' < 2 powi (e + 1)"
    by simp
  then have "e' < e + 1"
    using power_int_increasing [of "e + 1" e' "2::rat"] by (cases "e' < e + 1") simp_all
  then have "ulp_exp ?x \<le> e" using E e by simp
  then obtain u where u: "ulp_exp ?x = u" and le: "u \<le> e" by blast
  define k where "k = nat (e - u)"
  have pw: "(2::rat) powi e = 2 ^ k * 2 powi u"
  proof -
    have "e = int k + u" using le by (simp add: k_def)
    then have "(2::rat) powi e = 2 powi (int k) * 2 powi u"
      by (metis power_int_add zero_neq_numeral)
    then show ?thesis by simp
  qed
  have "?x / 2 powi u = of_int m * 2 ^ k"
    by (simp only: pw) simp
  then have "?x / 2 powi u = of_int (m * 2 ^ k)"
    by simp
  then have "round_half_even (?x / 2 powi u) = m * 2 ^ k"
    by (simp only: round_half_even_of_int)
  then have "fl ?x = of_int (m * 2 ^ k) * 2 powi u"
    using x0 by (simp only: fl_def u if_False)
  also have "\<dots> = of_int m * (2 ^ k * 2 powi u)" by simp
  also have "\<dots> = ?x" by (simp only: pw)
  finally show ?thesis .
qed

lemma fl_of_int: "\<bar>k\<bar> < 2 ^ 53 \<Longrightarrow> fl (of_int k) = of_int k"
  using fl_exact [of k 0] by simp

lemma fl_numeral [simp]: "numeral n < (2::int) ^ 53 \<Longrightarrow> fl (numeral n) = numeral n"
  using fl_exact [of "numeral n" 0] by simp

lemma fl_half [simp]: "numeral n < (2::int) ^ 53 \<Longrightarrow> fl (numeral n / 2) = numeral n / 2"
  using fl_exact [of "numeral n" "- 1"] by (simp add: power_int_minus field_simps)

lemma fl_0 [simp]: "fl 0 = 0"
  by (simp add: fl_def)

lemma fl_1 [simp]: "fl 1 = 1"
  using fl_exact [of 1 0] by simp

lemma fl_one_half [simp]: "fl (1 / 2) = 1 / 2"
  using fl_exact [of 1 "- 1"] by (simp add: power_int_minus)

section \<open>Tick rounding\<close>

lemma double_0_01: "fl (1 / 100) = 5764607523034235 / 576460752303423488"
  by code_simp

lemma double_0_59: "fl (59 / 100) = 5314247560297185 / 9007199254740992"
  by code_simp

lemma double_0_58: "fl (58 / 100) = 5224175567749775 / 9007199254740992"
  by code_simp

lemma ticks_of_0_59:
  "\<lfloor>fl ((5314247560297185 / 9007199254740992) / (5764607523034235 / 576460752303423488))\<rfloor> = 58"
  by code_simp

lemma ticks_of_0_58:
  "\<lfloor>fl ((5224175567749775 / 9007199254740992) / (5764607523034235 / 576460752303423488))\<rfloor> = 57"
  by code_simp

lemma price_of_58_ticks:
  "fl (fl (of_int 58) * (5764607523034235 / 576460752303423488))
     = 5224175567749775 / 9007199254740992"
  by code_simp

lemma price_of_57_ticks:
  "fl (fl (of_int 57) * (5764607523034235 / 576460752303423488))
     = 2567051787601183 / 4503599627370496"
  by code_simp

lemma floor_no_overflow:
  fixes x :: rat
  assumes "\<lfloor>x\<rfloor> = k" and "\<bar>k\<bar> < 2 ^ 53"
  shows "\<not> 2 ^ 1024 \<le> \<bar>x\<bar>"
proof -
  have lo: "of_int k \<le> x" and hi: "x < of_int k + 1"
    using assms(1) by (auto simp add: floor_eq_iff)
  have "\<bar>k\<bar> + 1 \<le> 2 ^ 53" using assms(2) by simp
  then have "(of_int (\<bar>k\<bar> + 1) :: rat) \<le> of_int (2 ^ 53)"
    by (simp only: of_int_le_iff)
  then have b: "(of_int \<bar>k\<bar> :: rat) + 1 \<le> 2 ^ 53" by simp
  have "\<bar>x\<bar> \<le> of_int \<bar>k\<bar> + 1"
    using lo hi by (simp add: abs_le_iff) linarith
  with b have "\<bar>x\<bar> \<le> 2 ^ 53" by linarith
  moreover have "(2::rat) ^ 53 < 2 ^ 1024" by (simp add: power_strict_increasing_iff)
  ultimately show ?thesis by linarith
qed

lemma round_to_tick_eval:
  assumes "tick_size c = t" and "t \<noteq> 0" and "\<lfloor>fl (p / t)\<rfloor> = k" and "\<bar>k\<bar> < 2 ^ 53"
    and "fl (fl (of_int k) * t) = r"
  shows "round_to_tick c p = Inr r"
  using assms floor_no_overflow [OF assms(3) assms(4)]
  by (simp add: round_to_tick_def fdiv_def fmul_def float_of_int_def)

lemma round_to_tick_overflow:
  "round_to_tick (LimitChaser_init scripted (1 / 2) ''buy'' 1 True 1 5000 10) (2 ^ 1023)
     = Inl OverflowError"
proof -
  have "fl (of_int 1 * 2 powi 1024) = of_int 1 * 2 powi 1024"
    by (rule fl_exact) simp_all
  then have "fl (2 ^ 1024) = 2 ^ 1024" by simp
  moreover have "(2::rat) ^ 1023 / (1 / 2) = 2 ^ 1024" by simp
  ultimately show ?thesis
    by (simp only: round_to_tick_def fdiv_def LimitChaser_init_def) simp
qed

text \<open>
  C6: \<^verbatim>\<open>_round_to_tick(price)\<close> is \<^verbatim>\<open>floor(price / tick_size) * tick_size\<close> and rounding a
  rounded price again returns it unchanged.  The code computes the formula in float
  arithmetic and misses the second part: with a tick of 0.01 the price 0.59 is rounded
  to 0.58, and 0.58, already on the grid, is rounded to 0.5700000000000001, because the
  quotient of the doubles nearest to 0.58 and 0.01 is just below 58.
\<close>

theorem round_to_tick_moves_rounded_price:
  "round_to_tick (LimitChaser_init scripted (fl (1 / 100)) ''buy'' 1 True 1 5000 10)
     (fl (59 / 100)) = Inr (fl (58 / 100)) \<and>
   round_to_tick (LimitChaser_init scripted (fl (1 / 100)) ''buy'' 1 True 1 5000 10)
     (fl (58 / 100)) = Inr (2567051787601183 / 4503599627370496) \<and>
   fl (58 / 100) \<noteq> 2567051787601183 / 4503599627370496"
proof -
  let ?c = "LimitChaser_init scripted (fl (1 / 100)) ''buy'' 1 True 1 5000 10"
  let ?t = "5764607523034235 / 576460752303423488 :: rat"
  have t: "tick_size ?c = ?t"
    unfolding LimitChaser_init_def double_0_01 by simp
  have t0: "?t \<noteq> 0" by simp
  have k58: "\<bar>58 :: int\<bar> < 2 ^ 53" and k57: "\<bar>57 :: int\<bar> < 2 ^ 53" by simp_all
  have "round_to_tick ?c (fl (59 / 100)) = Inr (fl (58 / 100))"
    unfolding double_0_59 double_0_58
    by (rule round_to_tick_eval [OF t t0 ticks_of_0_59 k58 price_of_58_ticks])
  moreover have "round_to_tick ?c (fl (58 / 100)) = Inr (2567051787601183 / 4503599627370496)"
    unfolding double_0_58
    by (rule round_to_tick_eval [OF t t0 ticks_of_0_58 k57 price_of_57_ticks])
  moreover have "fl (58 / 100) \<noteq> 2567051787601183 / 4503599627370496"
    unfolding double_0_58 by simp
  ultimately show ?thesis by blast
qed

lemma ticks_of_100_3: "\<lfloor>fdiv (fl (1003 / 10)) (1 / 2)\<rfloor> = 200"
  by code_simp

lemma ticks_of_100_7: "\<lfloor>fdiv (fl (1007 / 10)) (1 / 2)\<rfloor> = 201"
  by code_simp

section \<open>The chase engine, case by case\<close>

lemma recording_place:
  "place_limit g sd px sz po tif w = (r, w') \<Longrightarrow>
   place_limit (recording g) sd px sz po tif (w, calls) = (r, w', calls @ [Place sd px sz po tif r])"
  by (simp add: recording_def)

lemma recording_cancel:
  "cancel g oid w = (r, w') \<Longrightarrow>
   cancel (recording g) oid (w, calls) = (r, w', calls @ [Cancel oid r])"
  by (simp add: recording_def)

lemma recording_poll:
  "poll_fill g oid w = (r, w') \<Longrightarrow>
   poll_fill (recording g) oid (w, calls) = (r, w', calls @ [Poll oid r])"
  by (simp add: recording_def)

lemma on_quote_bad_tick:
  "round_to_tick c (if side c = ''buy'' then bid_px q else ask_px q) = Inl e \<Longrightarrow>
   on_quote c q w = (Inl e, c, w)"
  by (simp add: on_quote_def)

lemma on_quote_idle:
  assumes "order_id c = None"
    and "round_to_tick c (if side c = ''buy'' then bid_px q else ask_px q) = Inr target"
  shows "on_quote c q w =
     (case place_limit (ex c) (side c) target (order_size c) (post_only c) ''GTC'' w of
        (Inl e, w') \<Rightarrow> (Inl e, c\<lparr>start_px := Some target, order_px := Some target\<rparr>, w')
      | (Inr new_id, w') \<Rightarrow>
          (Inr None,
           c\<lparr>start_px := Some target, order_px := Some target, order_id := new_id,
             placed_ts := Some (ts_ms q)\<rparr>, w'))"
  using assms by (simp add: on_quote_def Let_def)

lemma on_quote_poll_raises:
  assumes "order_id c = Some oid"
    and "round_to_tick c (if side c = ''buy'' then bid_px q else ask_px q) = Inr target"
    and "poll_fill (ex c) oid w = (Inl e, w1)"
  shows "on_quote c q w = (Inl e, c, w1)"
  using assms by (simp add: on_quote_def Let_def)

lemma on_quote_filled:
  assumes "order_id c = Some oid"
    and "round_to_tick c (if side c = ''buy'' then bid_px q else ask_px q) = Inr target"
    and "poll_fill (ex c) oid w = (Inr True, w1)"
  shows "on_quote c q w =
     (case order_px c of
        None \<Rightarrow> (Inl TypeError, c, w1)
      | Some opx \<Rightarrow> (Inr (Some ''filled''), reset c, w1))"
  using assms by (simp add: on_quote_def Let_def)

lemma on_quote_incomplete:
  assumes "order_id c = Some oid" and "\<not> resting c"
    and "round_to_tick c (if side c = ''buy'' then bid_px q else ask_px q) = Inr target"
    and "poll_fill (ex c) oid w = (Inr False, w1)"
  shows "on_quote c q w = (Inl TypeError, c, w1)"
  using assms by (auto simp add: on_quote_def Let_def resting_def split: option.splits)

lemma on_quote_unfilled:
  assumes "order_id c = Some oid" and "resting c"
    and "round_to_tick c (if side c = ''buy'' then bid_px q else ask_px q) = Inr target"
    and "poll_fill (ex c) oid w = (Inr False, w1)"
  shows "on_quote c q w =
     (if abort_condition c target then
        (case cancel (ex c) oid w1 of
           (Inl e, w2) \<Rightarrow> (Inl e, c, w2)
         | (Inr u, w2) \<Rightarrow> (Inr (Some ''aborted''), reset c, w2))
      else if refresh_condition c target (ts_ms q) then
        (case cancel (ex c) oid w1 of
           (Inl e, w2) \<Rightarrow> (Inl e, c, w2)
         | (Inr u, w2) \<Rightarrow>
             (case place_limit (ex c) (side c) target (order_size c) (post_only c) ''GTC'' w2 of
                (Inl e, w3) \<Rightarrow> (Inl e, c, w3)
              | (Inr new_id, w3) \<Rightarrow>
                  (Inr None,
                   c\<lparr>order_id := new_id, order_px := Some target, placed_ts := Some (ts_ms q)\<rparr>,
                   w3)))
      else (Inr None, c, w1))"
  using assms
  by (auto simp add: on_quote_def Let_def resting_def abort_condition_def refresh_condition_def)

lemma round_to_tick_state [simp]:
  "round_to_tick (c\<lparr>order_id := a\<rparr>) px = round_to_tick c px"
  "round_to_tick (c\<lparr>order_px := b\<rparr>) px = round_to_tick c px"
  "round_to_tick (c\<lparr>start_px := b\<rparr>) px = round_to_tick c px"
  "round_to_tick (c\<lparr>placed_ts := d\<rparr>) px = round_to_tick c px"
  "round_to_tick (c\<lparr>side := sd\<rparr>) px = round_to_tick c px"
  by (simp_all add: round_to_tick_def)

lemma on_quote_side_cong:
  assumes "(sd1 = ''buy'') = (sd2 = ''buy'')"
    and "place_limit (ex c) sd1 = place_limit (ex c) sd2"
  shows "on_quote (c\<lparr>side := sd1\<rparr>) q w =
           (case on_quote (c\<lparr>side := sd2\<rparr>) q w of (r, c', w') \<Rightarrow> (r, c'\<lparr>side := sd1\<rparr>, w'))"
proof (cases "round_to_tick c (if sd2 = ''buy'' then bid_px q else ask_px q)")
  case (Inl e)
  then show ?thesis using assms(1) by (simp add: on_quote_def)
next
  case (Inr target)
  show ?thesis
  proof (cases "order_id c")
    case None
    then show ?thesis
      using assms Inr
      by (simp add: on_quote_def Let_def split: prod.split sum.split)
  next
    case (Some oid)
    then show ?thesis
      using assms Inr
      by (simp add: on_quote_def Let_def reset_def split: prod.split sum.split option.split)
  qed
qed


lemma on_quote_step_shape:
  assumes rec: "ex c = recording g"
  shows "step_shape (order_id c) (snd (snd (snd (on_quote c q (w, [])))))
           (order_id (fst (snd (on_quote c q (w, [])))))"
proof (cases "round_to_tick c (if side c = ''buy'' then bid_px q else ask_px q)")
  case (Inl e)
  then show ?thesis by (simp add: on_quote_bad_tick step_shape_def)
next
  case target: (Inr target)
  show ?thesis
  proof (cases "order_id c")
    case None
    obtain r w' where p: "place_limit g (side c) target (order_size c) (post_only c) ''GTC'' w = (r, w')"
      by (cases "place_limit g (side c) target (order_size c) (post_only c) ''GTC'' w")
    show ?thesis
      unfolding on_quote_idle [OF None target] rec recording_place [OF p]
      using None by (cases r) (simp_all add: step_shape_def)
  next
    case (Some oid)
    obtain r1 w1 where p: "poll_fill g oid w = (r1, w1)"
      by (cases "poll_fill g oid w")
    have p': "poll_fill (ex c) oid (w, []) = (r1, w1, [Poll oid r1])"
      using recording_poll [OF p, of "[]"] by (simp add: rec)
    show ?thesis
    proof (cases r1)
      case (Inl e)
      show ?thesis
        unfolding on_quote_poll_raises [OF Some target p' [unfolded Inl]]
        using Some by (simp add: step_shape_def Inl)
    next
      case (Inr filled)
      show ?thesis
      proof (cases filled)
        case True
        have pt: "poll_fill (ex c) oid (w, []) = (Inr True, w1, [Poll oid (Inr True)])"
          using p' Inr True by simp
        show ?thesis
          unfolding on_quote_filled [OF Some target pt]
          using Some by (cases "order_px c") (simp_all add: step_shape_def reset_def)
      next
        case False
        have pf: "poll_fill (ex c) oid (w, []) = (Inr False, w1, [Poll oid (Inr False)])"
          using p' Inr False by simp
        show ?thesis
        proof (cases "resting c")
          case False
          show ?thesis
            unfolding on_quote_incomplete [OF Some False target pf]
            using Some by (simp add: step_shape_def)
        next
          case True
          obtain r2 w2 where cn: "cancel g oid w1 = (r2, w2)"
            by (cases "cancel g oid w1")
          have cn': "cancel (ex c) oid (w1, [Poll oid (Inr False)])
                       = (r2, w2, [Poll oid (Inr False), Cancel oid r2])"
            using recording_cancel [OF cn, of "[Poll oid (Inr False)]"] by (simp add: rec)
          obtain r3 w3 where pl:
            "place_limit g (side c) target (order_size c) (post_only c) ''GTC'' w2 = (r3, w3)"
            by (cases "place_limit g (side c) target (order_size c) (post_only c) ''GTC'' w2")
          have pl': "place_limit (ex c) (side c) target (order_size c) (post_only c) ''GTC''
                       (w2, [Poll oid (Inr False), Cancel oid r2])
                     = (r3, w3, [Poll oid (Inr False), Cancel oid r2,
                          Place (side c) target (order_size c) (post_only c) ''GTC'' r3])"
            using recording_place [OF pl, of "[Poll oid (Inr False), Cancel oid r2]"]
            by (simp add: rec)
          show ?thesis
            unfolding on_quote_unfilled [OF Some True target pf]
            using Some cn' pl'
            by (cases r2; cases r3) (simp_all add: step_shape_def reset_def)
        qed
      qed
    qed
  qed
qed

lemma live_step_place:
  "live_step L (Place sd px sz po tif r) =
     (case r of Inl e \<Rightarrow> L | Inr None \<Rightarrow> L | Inr (Some oid) \<Rightarrow> insert oid L)"
  by (simp split: sum.split option.split)

lemma live_step_cancel:
  "live_step L (Cancel oid r) = (case r of Inl e \<Rightarrow> L | Inr u \<Rightarrow> L - {oid})"
  by (simp split: sum.split)

lemma live_step_poll:
  "live_step L (Poll oid r) = (if r = Inr True then L - {oid} else L)"
  by (cases r) (simp_all split: bool.split)

lemma step_shape_guard:
  assumes "step_shape before calls after"
  shows "\<forall>i < length calls. is_place (calls ! i) \<longrightarrow>
            before = None \<or> (\<exists>j < i. \<exists>r. calls ! j = Cancel (the before) r)"
  using assms unfolding step_shape_def
  by (elim disjE exE conjE) (auto simp add: nth_Cons' less_Suc_eq split: if_splits)

lemma card_set_option: "card (set_option x) \<le> Suc 0"
  by (cases x) simp_all

lemma step_shape_single:
  assumes "step_shape before calls after"
  shows "single_live (set_option before) calls"
  using assms unfolding step_shape_def
  by (elim disjE exE conjE)
     (simp_all add: live_step_place live_step_cancel live_step_poll card_set_option
        split: sum.split option.split)

lemma step_shape_live:
  assumes "step_shape before calls after"
  shows "foldl live_step (set_option before) calls \<subseteq> set_option after"
  using assms unfolding step_shape_def
  by (elim disjE exE conjE)
     (auto simp add: live_step_place live_step_cancel live_step_poll split: sum.splits option.splits)

section \<open>A resting chaser as worked example\<close>

lemma resting_example_fields:
  "ex resting_example = recording scripted"
  "order_id resting_example = Some ''7''"
  "order_px resting_example = Some 100"
  "start_px resting_example = Some 100"
  "placed_ts resting_example = Some 1000"
  "side resting_example = ''buy''"
  "tick_size resting_example = 1 / 2"
  "tolerance_ticks resting_example = 1"
  "max_age_ms resting_example = 5000"
  "max_chase_ticks resting_example = 10"
  "post_only resting_example = True"
  "order_size resting_example = ORDER_SIZE"
  by (simp_all add: resting_example_def LimitChaser_init_def TICK_SIZE_def SIDE_def
      TOLERANCE_TICKS_def MAX_AGE_MS_def MAX_CHASE_TICKS_def)

lemma resting_example_resting: "resting resting_example"
  by (simp add: resting_def resting_example_fields)

lemma resting_example_target_106:
  "round_to_tick resting_example
     (if side resting_example = ''buy'' then bid_px (quote_at 1200 106)
      else ask_px (quote_at 1200 106)) = Inr 106"
  by (simp add: round_to_tick_def resting_example_fields quote_at_def fdiv_def fmul_def
      float_of_int_def)

lemma resting_example_target_100_5:
  "round_to_tick resting_example
     (if side resting_example = ''buy'' then bid_px (quote_at 1200 (201 / 2))
      else ask_px (quote_at 1200 (201 / 2))) = Inr (201 / 2)"
  by (simp add: round_to_tick_def resting_example_fields quote_at_def fdiv_def fmul_def
      float_of_int_def)

lemma scripted_quiet:
  "poll_fill scripted oid (replies ps []) = (Inr False, replies ps [])"
  "cancel scripted oid (replies ps qs) = (Inr (), replies ps qs)"
  "place_limit scripted sd px sz po tif (replies (r # ps) qs) = (r, replies ps qs)"
  "place_limit scripted sd px sz po tif (replies [] qs) = (Inr None, replies [] qs)"
  "poll_fill scripted oid (replies ps (b # qs)) = (b, replies ps qs)"
  by (simp_all add: scripted_def replies_def)

lemma example_refresh:
  "on_quote resting_example (quote_at 1200 (201 / 2)) (replies [Inr (Some ''8'')] [], []) =
     (Inr None,
      resting_example\<lparr>order_id := Some ''8'', order_px := Some (201 / 2), placed_ts := Some 1200\<rparr>,
      replies [] [],
      [Poll ''7'' (Inr False), Cancel ''7'' (Inr ()),
       Place ''buy'' (201 / 2) ORDER_SIZE True ''GTC'' (Inr (Some ''8''))])"
proof -
  have p: "poll_fill (ex resting_example) ''7'' (replies [Inr (Some ''8'')] [], [])
             = (Inr False, replies [Inr (Some ''8'')] [], [Poll ''7'' (Inr False)])"
    using recording_poll [OF scripted_quiet(1), of "''7''" "[Inr (Some ''8'')]" "[]"]
    by (simp add: resting_example_fields)
  have a: "\<not> abort_condition resting_example (201 / 2)"
    by (simp add: abort_condition_def resting_example_fields fdiv_def fsub_def)
  have r: "refresh_condition resting_example (201 / 2) (ts_ms (quote_at 1200 (201 / 2)))"
    by (simp add: refresh_condition_def resting_example_fields fdiv_def fsub_def)
  show ?thesis
    unfolding on_quote_unfilled [OF resting_example_fields(2) resting_example_resting
        resting_example_target_100_5 p]
    using a r
      recording_cancel [OF scripted_quiet(2), of "''7''" "[Inr (Some ''8'')]" "[]"
        "[Poll ''7'' (Inr False)]"]
      recording_place [OF scripted_quiet(3), of "''buy''" "201 / 2" ORDER_SIZE True "''GTC''"
        "Inr (Some ''8'')" "[]" "[]" "[Poll ''7'' (Inr False), Cancel ''7'' (Inr ())]"]
    by (simp add: resting_example_fields quote_at_def)
qed

lemma idle_example_fields:
  "ex idle_example = scripted"
  "order_id idle_example = None"
  "order_px idle_example = None"
  "start_px idle_example = None"
  "placed_ts idle_example = None"
  "side idle_example = ''buy''"
  "tick_size idle_example = 1 / 2"
  "tolerance_ticks idle_example = 1"
  "max_age_ms idle_example = 5000"
  "max_chase_ticks idle_example = 10"
  "post_only idle_example = True"
  "order_size idle_example = ORDER_SIZE"
  by (simp_all add: idle_example_def LimitChaser_init_def TICK_SIZE_def SIDE_def
      TOLERANCE_TICKS_def MAX_AGE_MS_def MAX_CHASE_TICKS_def)

lemma idle_example_target_100:
  "round_to_tick idle_example
     (if side idle_example = ''buy'' then bid_px (quote_at 1000 100)
      else ask_px (quote_at 1000 100)) = Inr 100"
  by (simp add: round_to_tick_def idle_example_fields quote_at_def fdiv_def fmul_def
      float_of_int_def)

lemma example_failed_placement:
  "on_quote idle_example (quote_at 1000 100) (replies [Inr None] []) =
     (Inr None,
      idle_example\<lparr>start_px := Some 100, order_px := Some 100, order_id := None,
        placed_ts := Some 1000\<rparr>,
      replies [] [])"
  unfolding on_quote_idle [OF idle_example_fields(2) idle_example_target_100]
  by (simp add: idle_example_fields scripted_quiet quote_at_def)

lemma quote_at_fields [simp]:
  "ts_ms (quote_at t b) = t" "bid_px (quote_at t b) = b" "ask_px (quote_at t b) = b + 1 / 2"
  by (simp_all add: quote_at_def)

lemma resting_example_target_103:
  "round_to_tick resting_example
     (if side resting_example = ''buy'' then bid_px (quote_at 1800 103)
      else ask_px (quote_at 1800 103)) = Inr 103"
  by (simp add: round_to_tick_def resting_example_fields quote_at_def fdiv_def fmul_def
      float_of_int_def)

lemma idle_example_target_100_any:
  "round_to_tick idle_example
     (if side idle_example = ''buy'' then bid_px (quote_at t 100) else ask_px (quote_at t 100))
     = Inr 100"
  by (simp add: round_to_tick_def idle_example_fields quote_at_def fdiv_def fmul_def
      float_of_int_def)

lemma example_first_placement:
  "on_quote idle_example (quote_at t 100) (replies [Inr (Some ''1'')] []) =
     (Inr None,
      idle_example\<lparr>start_px := Some 100, order_px := Some 100, order_id := Some ''1'',
        placed_ts := Some t\<rparr>,
      replies [] [])"
  unfolding on_quote_idle [OF idle_example_fields(2) idle_example_target_100_any]
  by (simp add: idle_example_fields scripted_quiet quote_at_def)

lemma py_str_7: "py_str 7 = ''7''"
  by code_simp


lemma canned_fields:
  "executor live_example = canned_executor"
  "coin live_example = ''BTC''"
  "address canned_executor = ''0xabc''"
  "query_order_by_oid canned_executor a n w = (fst w, w)"
  "execute_limit_order canned_executor sy b sz px w = (Inr (Some 7), (fst w, Some b))"
  by (simp_all add: live_example_def canned_executor_def)

section \<open>Abort, refresh and the order of calls\<close>

text \<open>
  C3: a quote processed while an order rests, for which the step reaches its decision
  (the poll reports no fill) and both the abort condition and the refresh condition
  hold, is answered by a cancel of the resting order and nothing else: when the cancel
  returns, \<^verbatim>\<open>order_id\<close>, \<^verbatim>\<open>order_px\<close>, \<^verbatim>\<open>start_px\<close> and \<^verbatim>\<open>placed_ts\<close> are all \<^verbatim>\<open>None\<close>
  afterwards, the configuration is untouched and the outcome is \<^verbatim>\<open>"aborted"\<close>;
  \<^verbatim>\<open>place_limit\<close> is not called in that step.
\<close>

theorem abort_takes_precedence:
  assumes rec: "ex c = recording g"
    and oid: "order_id c = Some oid" and rest: "resting c"
    and target: "round_to_tick c (if side c = ''buy'' then bid_px q else ask_px q) = Inr target"
    and poll: "poll_fill g oid w = (Inr False, w1)"
    and abort: "abort_condition c target"
    and refresh: "refresh_condition c target (ts_ms q)"
  shows "on_quote c q (w, []) =
     (case cancel g oid w1 of
        (Inr u, w2) \<Rightarrow>
          (Inr (Some ''aborted''),
           c\<lparr>order_id := None, order_px := None, start_px := None, placed_ts := None\<rparr>,
           w2, [Poll oid (Inr False), Cancel oid (Inr u)])
      | (Inl e, w2) \<Rightarrow> (Inl e, c, w2, [Poll oid (Inr False), Cancel oid (Inl e)])) \<and>
    (\<forall>ev \<in> set (snd (snd (snd (on_quote c q (w, []))))). \<not> is_place ev) \<and>
    (\<forall>u w2. cancel g oid w1 = (Inr u, w2) \<longrightarrow>
       fst (on_quote c q (w, [])) = Inr (Some ''aborted'') \<and>
       order_id (fst (snd (on_quote c q (w, [])))) = None \<and>
       order_px (fst (snd (on_quote c q (w, [])))) = None \<and>
       start_px (fst (snd (on_quote c q (w, [])))) = None \<and>
       placed_ts (fst (snd (on_quote c q (w, [])))) = None \<and>
       idle (fst (snd (on_quote c q (w, [])))))"
proof -
  have p: "poll_fill (ex c) oid (w, []) = (Inr False, w1, [Poll oid (Inr False)])"
    using recording_poll [OF poll, of "[]"] by (simp add: rec)
  have eq: "on_quote c q (w, []) =
     (case cancel g oid w1 of
        (Inr u, w2) \<Rightarrow>
          (Inr (Some ''aborted''),
           c\<lparr>order_id := None, order_px := None, start_px := None, placed_ts := None\<rparr>,
           w2, [Poll oid (Inr False), Cancel oid (Inr u)])
      | (Inl e, w2) \<Rightarrow> (Inl e, c, w2, [Poll oid (Inr False), Cancel oid (Inl e)]))"
    unfolding on_quote_unfilled [OF oid rest target p]
    using abort recording_cancel [of g oid w1 _ _ "[Poll oid (Inr False)]"]
    by (cases "cancel g oid w1") (auto simp add: rec reset_def split: sum.split)
  have "\<forall>ev \<in> set (snd (snd (snd (on_quote c q (w, []))))). \<not> is_place ev"
    unfolding eq by (auto split: prod.splits sum.splits)
  moreover have "\<forall>u w2. cancel g oid w1 = (Inr u, w2) \<longrightarrow>
       fst (on_quote c q (w, [])) = Inr (Some ''aborted'') \<and>
       order_id (fst (snd (on_quote c q (w, [])))) = None \<and>
       order_px (fst (snd (on_quote c q (w, [])))) = None \<and>
       start_px (fst (snd (on_quote c q (w, [])))) = None \<and>
       placed_ts (fst (snd (on_quote c q (w, [])))) = None \<and>
       idle (fst (snd (on_quote c q (w, []))))"
    unfolding eq by (simp add: idle_def)
  ultimately show ?thesis using eq by blast
qed

theorem abort_takes_precedence_witness:
  "resting resting_example \<and>
   abort_condition resting_example 106 \<and>
   refresh_condition resting_example 106 (ts_ms (quote_at 1200 106)) \<and>
   on_quote resting_example (quote_at 1200 106) (replies [] [], []) =
     (Inr (Some ''aborted''),
      resting_example\<lparr>order_id := None, order_px := None, start_px := None, placed_ts := None\<rparr>,
      replies [] [],
      [Poll ''7'' (Inr False), Cancel ''7'' (Inr ())]) \<and>
   order_id (fst (snd (on_quote resting_example (quote_at 1200 106) (replies [] [], [])))) = None \<and>
   order_px (fst (snd (on_quote resting_example (quote_at 1200 106) (replies [] [], [])))) = None \<and>
   start_px (fst (snd (on_quote resting_example (quote_at 1200 106) (replies [] [], [])))) = None \<and>
   placed_ts (fst (snd (on_quote resting_example (quote_at 1200 106) (replies [] [], [])))) = None \<and>
   idle (fst (snd (on_quote resting_example (quote_at 1200 106) (replies [] [], []))))"
proof -
  have a: "abort_condition resting_example 106"
    by (simp add: abort_condition_def resting_example_fields fdiv_def fsub_def)
  have r: "refresh_condition resting_example 106 (ts_ms (quote_at 1200 106))"
    by (simp add: refresh_condition_def resting_example_fields fdiv_def fsub_def)
  note th = abort_takes_precedence [OF resting_example_fields(1) resting_example_fields(2)
      resting_example_resting resting_example_target_106 scripted_quiet(1) a r]
  have c: "cancel scripted ''7'' (replies [] []) = (Inr (), replies [] [])"
    by (rule scripted_quiet(2))
  from th c
  have "on_quote resting_example (quote_at 1200 106) (replies [] [], []) =
     (Inr (Some ''aborted''),
      resting_example\<lparr>order_id := None, order_px := None, start_px := None, placed_ts := None\<rparr>,
      replies [] [],
      [Poll ''7'' (Inr False), Cancel ''7'' (Inr ())])"
    by simp
  moreover from th c
  have "order_id (fst (snd (on_quote resting_example (quote_at 1200 106) (replies [] [], [])))) = None \<and>
   order_px (fst (snd (on_quote resting_example (quote_at 1200 106) (replies [] [], [])))) = None \<and>
   start_px (fst (snd (on_quote resting_example (quote_at 1200 106) (replies [] [], [])))) = None \<and>
   placed_ts (fst (snd (on_quote resting_example (quote_at 1200 106) (replies [] [], [])))) = None \<and>
   idle (fst (snd (on_quote resting_example (quote_at 1200 106) (replies [] [], []))))"
    by blast
  ultimately show ?thesis
    using resting_example_resting a r by blast
qed

text \<open>
  C5: a quote processed while an order rests that triggers a refresh (no fill, no abort,
  drift or age at its limit) makes the engine cancel the resting order and place a new one
  at the target price with the same side and size; \<^verbatim>\<open>order_px\<close> becomes the target,
  \<^verbatim>\<open>placed_ts\<close> the quote's time, \<^verbatim>\<open>start_px\<close> is unchanged and the outcome is \<^verbatim>\<open>None\<close>.
\<close>

theorem refresh_replaces_order:
  assumes rec: "ex c = recording g"
    and oid: "order_id c = Some oid" and rest: "resting c"
    and target: "round_to_tick c (if side c = ''buy'' then bid_px q else ask_px q) = Inr target"
    and poll: "poll_fill g oid w = (Inr False, w1)"
    and abort: "\<not> abort_condition c target"
    and refresh: "refresh_condition c target (ts_ms q)"
    and cancelled: "cancel g oid w1 = (Inr u, w2)"
    and placed: "place_limit g (side c) target (order_size c) (post_only c) ''GTC'' w2 = (Inr new_id, w3)"
  shows "on_quote c q (w, []) =
     (Inr None,
      c\<lparr>order_id := new_id, order_px := Some target, placed_ts := Some (ts_ms q)\<rparr>,
      w3,
      [Poll oid (Inr False), Cancel oid (Inr u),
       Place (side c) target (order_size c) (post_only c) ''GTC'' (Inr new_id)]) \<and>
    start_px (fst (snd (on_quote c q (w, [])))) = start_px c"
proof -
  have p: "poll_fill (ex c) oid (w, []) = (Inr False, w1, [Poll oid (Inr False)])"
    using recording_poll [OF poll, of "[]"] by (simp add: rec)
  show ?thesis
    unfolding on_quote_unfilled [OF oid rest target p]
    using abort refresh recording_cancel [OF cancelled, of "[Poll oid (Inr False)]"]
      recording_place [OF placed, of "[Poll oid (Inr False), Cancel oid (Inr u)]"]
    by (simp add: rec)
qed


theorem refresh_replaces_order_witness:
  "resting resting_example \<and>
   \<not> abort_condition resting_example (201 / 2) \<and>
   refresh_condition resting_example (201 / 2) (ts_ms (quote_at 1200 (201 / 2))) \<and>
   on_quote resting_example (quote_at 1200 (201 / 2)) (replies [Inr (Some ''8'')] [], []) =
     (Inr None,
      resting_example\<lparr>order_id := Some ''8'', order_px := Some (201 / 2), placed_ts := Some 1200\<rparr>,
      replies [] [],
      [Poll ''7'' (Inr False), Cancel ''7'' (Inr ()),
       Place ''buy'' (201 / 2) ORDER_SIZE True ''GTC'' (Inr (Some ''8''))])"
proof -
  have a: "\<not> abort_condition resting_example (201 / 2)"
    by (simp add: abort_condition_def resting_example_fields fdiv_def fsub_def)
  have r: "refresh_condition resting_example (201 / 2) (ts_ms (quote_at 1200 (201 / 2)))"
    by (simp add: refresh_condition_def resting_example_fields fdiv_def fsub_def)
  show ?thesis
    using refresh_replaces_order [OF resting_example_fields(1) resting_example_fields(2)
        resting_example_resting resting_example_target_100_5 scripted_quiet(1) a r
        scripted_quiet(2)]
      resting_example_resting a r
    by (simp add: scripted_quiet resting_example_fields quote_at_def)
qed

text \<open>
  C7: in every call of \<^verbatim>\<open>on_quote\<close>, whatever the gateway answers, \<^verbatim>\<open>place_limit\<close> is
  called only if the engine was Idle when the call began or after \<^verbatim>\<open>cancel\<close> was called
  on the order that was resting; at no moment of the call has the engine more than one
  live order, and an order still live at the end is the tracked one.
\<close>

theorem place_only_when_clear:
  assumes rec: "ex c = recording g"
  shows "(\<forall>i < length (snd (snd (snd (on_quote c q (w, []))))).
            is_place (snd (snd (snd (on_quote c q (w, [])))) ! i) \<longrightarrow>
              order_id c = None \<or>
              (\<exists>j < i. \<exists>r. snd (snd (snd (on_quote c q (w, [])))) ! j
                              = Cancel (the (order_id c)) r)) \<and>
         single_live (set_option (order_id c)) (snd (snd (snd (on_quote c q (w, []))))) \<and>
         foldl live_step (set_option (order_id c)) (snd (snd (snd (on_quote c q (w, [])))))
           \<subseteq> set_option (order_id (fst (snd (on_quote c q (w, [])))))"
  using step_shape_guard [OF on_quote_step_shape [OF rec]]
    step_shape_single [OF on_quote_step_shape [OF rec]]
    step_shape_live [OF on_quote_step_shape [OF rec]]
  by blast

theorem place_only_when_clear_witness:
  "ex resting_example = recording scripted \<and>
   is_place (snd (snd (snd (on_quote resting_example (quote_at 1200 (201 / 2))
      (replies [Inr (Some ''8'')] [], [])))) ! 2) \<and>
   (\<exists>j < 2. \<exists>r. snd (snd (snd (on_quote resting_example (quote_at 1200 (201 / 2))
      (replies [Inr (Some ''8'')] [], [])))) ! j = Cancel ''7'' r) \<and>
   single_live {''7''} (snd (snd (snd (on_quote resting_example (quote_at 1200 (201 / 2))
      (replies [Inr (Some ''8'')] [], []))))) \<and>
   foldl live_step {''7''} (snd (snd (snd (on_quote resting_example (quote_at 1200 (201 / 2))
      (replies [Inr (Some ''8'')] [], []))))) \<subseteq> {''8''}"
proof -
  let ?calls = "snd (snd (snd (on_quote resting_example (quote_at 1200 (201 / 2))
      (replies [Inr (Some ''8'')] [], []))))"
  have len: "(2::nat) < length ?calls" and pl: "is_place (?calls ! 2)"
    by (simp_all add: example_refresh)
  from place_only_when_clear [OF resting_example_fields(1), of "quote_at 1200 (201 / 2)"
      "replies [Inr (Some ''8'')] []"] len pl
  have "(\<exists>j < 2. \<exists>r. ?calls ! j = Cancel ''7'' r)"
    and "single_live {''7''} ?calls"
    and "foldl live_step {''7''} ?calls
           \<subseteq> set_option (order_id (fst (snd (on_quote resting_example (quote_at 1200 (201 / 2))
                 (replies [Inr (Some ''8'')] [], [])))))"
    by (auto simp add: resting_example_fields)
  then show ?thesis
    using pl by (simp add: resting_example_fields example_refresh)
qed

section \<open>Consistency of the chase state\<close>

text \<open>
  C2, as stated, fails: when the placement from Idle returns \<^verbatim>\<open>None\<close>, the call ends with
  \<^verbatim>\<open>order_id\<close> absent and \<^verbatim>\<open>order_px\<close>, \<^verbatim>\<open>start_px\<close> and \<^verbatim>\<open>placed_ts\<close> set, which is
  neither Idle nor Resting as the specification defines them.
\<close>

theorem failed_placement_counterexample:
  "fst (on_quote idle_example (quote_at 1000 100) (replies [Inr None] [])) = Inr None \<and>
   order_id (fst (snd (on_quote idle_example (quote_at 1000 100) (replies [Inr None] [])))) = None \<and>
   order_px (fst (snd (on_quote idle_example (quote_at 1000 100) (replies [Inr None] []))))
     = Some 100 \<and>
   \<not> idle (fst (snd (on_quote idle_example (quote_at 1000 100) (replies [Inr None] [])))) \<and>
   \<not> resting (fst (snd (on_quote idle_example (quote_at 1000 100) (replies [Inr None] []))))"
  by (simp add: example_failed_placement idle_def resting_def)

text \<open>
  C2, amended: a freshly constructed chaser tracks no order; every \<^verbatim>\<open>on_quote\<close>, whatever
  the gateway answers and however the call ends, leaves a tracked order (\<^verbatim>\<open>order_id\<close>
  present) together with \<^verbatim>\<open>order_px\<close>, \<^verbatim>\<open>start_px\<close> and \<^verbatim>\<open>placed_ts\<close>; after the outcome
  \<^verbatim>\<open>"filled"\<close> or \<^verbatim>\<open>"aborted"\<close> all four fields are absent.  Idle is \<^verbatim>\<open>order_id\<close> absent
  alone: a placement that returns \<^verbatim>\<open>None\<close> leaves \<^verbatim>\<open>order_id\<close> absent and the other
  three fields at the values written for the attempt.
\<close>

theorem tracked_order_complete:
  "tracked_complete (LimitChaser_init g tick sd sz po tol age chase) \<and>
   (tracked_complete c \<longrightarrow>
      tracked_complete (fst (snd (on_quote c q w))) \<and>
      (fst (on_quote c q w) = Inr (Some ''filled'') \<or> fst (on_quote c q w) = Inr (Some ''aborted'')
         \<longrightarrow> idle (fst (snd (on_quote c q w))))) \<and>
   (order_id c = None \<and>
    round_to_tick c (if side c = ''buy'' then bid_px q else ask_px q) = Inr target \<and>
    place_limit (ex c) (side c) target (order_size c) (post_only c) ''GTC'' w = (Inr None, w')
      \<longrightarrow> on_quote c q w =
            (Inr None,
             c\<lparr>start_px := Some target, order_px := Some target, order_id := None,
               placed_ts := Some (ts_ms q)\<rparr>, w'))"
proof (intro conjI impI)
  show "tracked_complete (LimitChaser_init g tick sd sz po tol age chase)"
    by (simp add: tracked_complete_def LimitChaser_init_def)
next
  assume "order_id c = None \<and>
    round_to_tick c (if side c = ''buy'' then bid_px q else ask_px q) = Inr target \<and>
    place_limit (ex c) (side c) target (order_size c) (post_only c) ''GTC'' w = (Inr None, w')"
  then show "on_quote c q w =
            (Inr None,
             c\<lparr>start_px := Some target, order_px := Some target, order_id := None,
               placed_ts := Some (ts_ms q)\<rparr>, w')"
    by (simp add: on_quote_idle)
next
  assume inv: "tracked_complete c"
  have "tracked_complete (fst (snd (on_quote c q w))) \<and>
      (fst (on_quote c q w) = Inr (Some ''filled'') \<or> fst (on_quote c q w) = Inr (Some ''aborted'')
         \<longrightarrow> idle (fst (snd (on_quote c q w))))"
  proof (cases "round_to_tick c (if side c = ''buy'' then bid_px q else ask_px q)")
    case (Inl e)
    then show ?thesis using inv by (simp add: on_quote_bad_tick)
  next
    case target: (Inr target)
    show ?thesis
    proof (cases "order_id c")
      case None
      show ?thesis
        unfolding on_quote_idle [OF None target]
        using None by (simp add: tracked_complete_def split: prod.split sum.split)
    next
      case (Some oid)
      obtain r1 w1 where p: "poll_fill (ex c) oid w = (r1, w1)"
        by (cases "poll_fill (ex c) oid w")
      show ?thesis
      proof (cases r1)
        case (Inl e)
        show ?thesis
          unfolding on_quote_poll_raises [OF Some target p [unfolded Inl]]
          using inv by simp
      next
        case (Inr filled)
        show ?thesis
        proof (cases filled)
          case True
          have pt: "poll_fill (ex c) oid w = (Inr True, w1)" using p Inr True by simp
          show ?thesis
            unfolding on_quote_filled [OF Some target pt]
            using inv Some by (simp add: tracked_complete_def idle_def reset_def split: option.split)
        next
          case False
          have pf: "poll_fill (ex c) oid w = (Inr False, w1)" using p Inr False by simp
          show ?thesis
          proof (cases "resting c")
            case False
            show ?thesis
              unfolding on_quote_incomplete [OF Some False target pf]
              using inv by simp
          next
            case True
            show ?thesis
              unfolding on_quote_unfilled [OF Some True target pf]
              using inv True
              by (simp add: tracked_complete_def idle_def reset_def resting_def
                  split: prod.split sum.split)
          qed
        qed
      qed
    qed
  qed
  then show "tracked_complete (fst (snd (on_quote c q w)))"
    and "fst (on_quote c q w) = Inr (Some ''filled'') \<or> fst (on_quote c q w) = Inr (Some ''aborted'')
         \<Longrightarrow> idle (fst (snd (on_quote c q w)))"
    by blast+
qed

theorem tracked_order_complete_witness:
  "tracked_complete idle_example \<and>
   order_id idle_example = None \<and>
   tracked_complete (fst (snd (on_quote idle_example (quote_at 1000 100) (replies [Inr None] [])))) \<and>
   on_quote idle_example (quote_at 1000 100) (replies [Inr None] []) =
     (Inr None,
      idle_example\<lparr>start_px := Some 100, order_px := Some 100, order_id := None,
        placed_ts := Some 1000\<rparr>,
      replies [] [])"
proof -
  have i: "tracked_complete idle_example"
    by (simp add: tracked_complete_def idle_example_fields)
  have p: "place_limit (ex idle_example) (side idle_example) 100 (order_size idle_example)
      (post_only idle_example) ''GTC'' (replies [Inr None] []) = (Inr None, replies [] [])"
    by (simp add: idle_example_fields scripted_quiet)
  have ts: "ts_ms (quote_at 1000 100) = 1000"
    by (simp add: quote_at_def)
  note th = tracked_order_complete [of scripted TICK_SIZE SIDE ORDER_SIZE True TOLERANCE_TICKS
      MAX_AGE_MS MAX_CHASE_TICKS idle_example "quote_at 1000 100" "replies [Inr None] []" 100
      "replies [] []"]
  from th i
  have a: "tracked_complete
      (fst (snd (on_quote idle_example (quote_at 1000 100) (replies [Inr None] []))))"
    by blast
  from th p idle_example_target_100 idle_example_fields(2)
  have b: "on_quote idle_example (quote_at 1000 100) (replies [Inr None] []) =
     (Inr None,
      idle_example\<lparr>start_px := Some 100, order_px := Some 100, order_id := None,
        placed_ts := Some (ts_ms (quote_at 1000 100))\<rparr>,
      replies [] [])"
    by blast
  show ?thesis
    using i a b [unfolded ts] idle_example_fields(2) by blast
qed

section \<open>A re-placement that fails\<close>

text \<open>
  C9: when in a refresh step the old order has been cancelled and \<^verbatim>\<open>place_limit\<close> returns
  \<^verbatim>\<open>None\<close>, the step ends with \<^verbatim>\<open>order_id\<close> absent and outcome \<^verbatim>\<open>None\<close>, \<^verbatim>\<open>start_px\<close> still
  the original entry.  The next quote then takes the placement branch of Idle, which
  overwrites \<^verbatim>\<open>start_px\<close> with the new target price, so the abort distance is measured
  from there.
\<close>

theorem failed_replacement_reanchors:
  assumes oid: "order_id c = Some oid" and rest: "resting c"
    and target: "round_to_tick c (if side c = ''buy'' then bid_px q else ask_px q) = Inr target"
    and poll: "poll_fill (ex c) oid w = (Inr False, w1)"
    and abort: "\<not> abort_condition c target"
    and refresh: "refresh_condition c target (ts_ms q)"
    and cancelled: "cancel (ex c) oid w1 = (Inr u, w2)"
    and failed: "place_limit (ex c) (side c) target (order_size c) (post_only c) ''GTC'' w2
                   = (Inr None, w3)"
    and target': "round_to_tick c (if side c = ''buy'' then bid_px q' else ask_px q') = Inr target'"
  shows "on_quote c q w =
           (Inr None, c\<lparr>order_id := None, order_px := Some target, placed_ts := Some (ts_ms q)\<rparr>,
            w3) \<and>
         start_px (c\<lparr>order_id := None, order_px := Some target, placed_ts := Some (ts_ms q)\<rparr>)
           = start_px c \<and>
         on_quote (c\<lparr>order_id := None, order_px := Some target, placed_ts := Some (ts_ms q)\<rparr>)
             q' w' =
           (case place_limit (ex c) (side c) target' (order_size c) (post_only c) ''GTC'' w' of
              (Inl e, w'') \<Rightarrow>
                (Inl e,
                 c\<lparr>order_id := None, order_px := Some target', placed_ts := Some (ts_ms q),
                   start_px := Some target'\<rparr>, w'')
            | (Inr new_id, w'') \<Rightarrow>
                (Inr None,
                 c\<lparr>order_id := new_id, order_px := Some target', placed_ts := Some (ts_ms q'),
                   start_px := Some target'\<rparr>, w'')) \<and>
         start_px (fst (snd (on_quote
             (c\<lparr>order_id := None, order_px := Some target, placed_ts := Some (ts_ms q)\<rparr>) q' w')))
           = Some target' \<and>
         (abort_condition (fst (snd (on_quote
             (c\<lparr>order_id := None, order_px := Some target, placed_ts := Some (ts_ms q)\<rparr>) q' w')))
            t \<longleftrightarrow> max_chase_ticks c < fdiv \<bar>fsub t target'\<bar> (tick_size c))"
proof -
  let ?c1 = "c\<lparr>order_id := None, order_px := Some target, placed_ts := Some (ts_ms q)\<rparr>"
  have first: "on_quote c q w = (Inr None, ?c1, w3)"
    unfolding on_quote_unfilled [OF oid rest target poll]
    using abort refresh by (simp add: cancelled failed)
  have idle1: "order_id ?c1 = None" by simp
  have t1: "round_to_tick ?c1 (if side ?c1 = ''buy'' then bid_px q' else ask_px q') = Inr target'"
    using target' by simp
  have second: "on_quote ?c1 q' w' =
           (case place_limit (ex c) (side c) target' (order_size c) (post_only c) ''GTC'' w' of
              (Inl e, w'') \<Rightarrow>
                (Inl e,
                 c\<lparr>order_id := None, order_px := Some target', placed_ts := Some (ts_ms q),
                   start_px := Some target'\<rparr>, w'')
            | (Inr new_id, w'') \<Rightarrow>
                (Inr None,
                 c\<lparr>order_id := new_id, order_px := Some target', placed_ts := Some (ts_ms q'),
                   start_px := Some target'\<rparr>, w''))"
    unfolding on_quote_idle [OF idle1 t1]
    by (simp split: prod.split sum.split)
  have anchor: "start_px (fst (snd (on_quote ?c1 q' w'))) = Some target'"
    and others: "max_chase_ticks (fst (snd (on_quote ?c1 q' w'))) = max_chase_ticks c"
      "tick_size (fst (snd (on_quote ?c1 q' w'))) = tick_size c"
    unfolding second by (simp_all split: prod.split sum.split)
  have "abort_condition (fst (snd (on_quote ?c1 q' w'))) t
          \<longleftrightarrow> max_chase_ticks c < fdiv \<bar>fsub t target'\<bar> (tick_size c)"
    by (simp add: abort_condition_def anchor others)
  with first second anchor show ?thesis by simp
qed

theorem failed_replacement_reanchors_witness:
  "resting resting_example \<and>
   \<not> abort_condition resting_example (201 / 2) \<and>
   refresh_condition resting_example (201 / 2) (ts_ms (quote_at 1200 (201 / 2))) \<and>
   on_quote resting_example (quote_at 1200 (201 / 2)) (replies [Inr None] [], []) =
     (Inr None,
      resting_example\<lparr>order_id := None, order_px := Some (201 / 2),
        placed_ts := Some (ts_ms (quote_at 1200 (201 / 2)))\<rparr>,
      replies [] [],
      [Poll ''7'' (Inr False), Cancel ''7'' (Inr ()),
       Place ''buy'' (201 / 2) ORDER_SIZE True ''GTC'' (Inr None)]) \<and>
   start_px resting_example = Some 100 \<and>
   start_px (fst (snd (on_quote
       (resting_example\<lparr>order_id := None, order_px := Some (201 / 2),
          placed_ts := Some (ts_ms (quote_at 1200 (201 / 2)))\<rparr>)
       (quote_at 1800 103) (replies [] [], [])))) = Some 103"
proof -
  have a: "\<not> abort_condition resting_example (201 / 2)"
    by (simp add: abort_condition_def resting_example_fields fdiv_def fsub_def)
  have r: "refresh_condition resting_example (201 / 2) (ts_ms (quote_at 1200 (201 / 2)))"
    by (simp add: refresh_condition_def resting_example_fields fdiv_def fsub_def)
  have p: "poll_fill (ex resting_example) ''7'' (replies [Inr None] [], [])
             = (Inr False, replies [Inr None] [], [Poll ''7'' (Inr False)])"
    using recording_poll [OF scripted_quiet(1), of "''7''" "[Inr None]" "[]"]
    by (simp add: resting_example_fields)
  have c: "cancel (ex resting_example) ''7'' (replies [Inr None] [], [Poll ''7'' (Inr False)])
             = (Inr (), replies [Inr None] [], [Poll ''7'' (Inr False), Cancel ''7'' (Inr ())])"
    using recording_cancel [OF scripted_quiet(2), of "''7''" "[Inr None]" "[]"
        "[Poll ''7'' (Inr False)]"]
    by (simp add: resting_example_fields)
  have f: "place_limit (ex resting_example) (side resting_example) (201 / 2)
             (order_size resting_example) (post_only resting_example) ''GTC''
             (replies [Inr None] [], [Poll ''7'' (Inr False), Cancel ''7'' (Inr ())])
           = (Inr None, replies [] [],
              [Poll ''7'' (Inr False), Cancel ''7'' (Inr ()),
               Place ''buy'' (201 / 2) ORDER_SIZE True ''GTC'' (Inr None)])"
    using recording_place [OF scripted_quiet(3), of "''buy''" "201 / 2" ORDER_SIZE True "''GTC''"
        "Inr None" "[]" "[]" "[Poll ''7'' (Inr False), Cancel ''7'' (Inr ())]"]
    by (simp add: resting_example_fields)
  show ?thesis
    using failed_replacement_reanchors [OF resting_example_fields(2) resting_example_resting
        resting_example_target_100_5 p a r c f resting_example_target_103,
        of "(replies [] [], [])"]
      resting_example_resting a r resting_example_fields(4)
    by blast
qed

section \<open>The side parameter\<close>

text \<open>
  C10: no value of \<^verbatim>\<open>side\<close> is rejected.  For every side other than the string \<^verbatim>\<open>"buy"\<close>
  the live client calls \<^verbatim>\<open>execute_limit_order\<close> with \<^verbatim>\<open>is_buy = False\<close>, as for \<^verbatim>\<open>"sell"\<close>,
  and \<^verbatim>\<open>on_quote\<close> behaves as it does for \<^verbatim>\<open>"sell"\<close>: it targets the rounded ask price, and
  from Idle it submits a sell order there.
\<close>

theorem any_other_side_sells:
  assumes nb: "sd \<noteq> ''buy''" and live: "ex c = live_gateway cl"
  shows "LiveExchangeClient_place_limit cl sd px sz po tif w =
           (case execute_limit_order (executor cl) (coin cl) False sz px w of
              (Inl e, w') \<Rightarrow> (Inl e, w')
            | (Inr None, w') \<Rightarrow> (Inr None, w')
            | (Inr (Some n), w') \<Rightarrow> (Inr (Some (py_str n)), w')) \<and>
         LiveExchangeClient_place_limit cl sd px sz po tif w =
           LiveExchangeClient_place_limit cl ''sell'' px sz po tif w \<and>
         on_quote (c\<lparr>side := sd\<rparr>) q w =
           (case on_quote (c\<lparr>side := ''sell''\<rparr>) q w of (r, c', w') \<Rightarrow> (r, c'\<lparr>side := sd\<rparr>, w')) \<and>
         (order_id c = None \<longrightarrow>
            on_quote (c\<lparr>side := sd\<rparr>) q w =
              (case round_to_tick c (ask_px q) of
                 Inl e \<Rightarrow> (Inl e, c\<lparr>side := sd\<rparr>, w)
               | Inr target \<Rightarrow>
                   (case execute_limit_order (executor cl) (coin cl) False (order_size c) target w of
                      (Inl e, w') \<Rightarrow>
                        (Inl e, c\<lparr>side := sd, start_px := Some target, order_px := Some target\<rparr>, w')
                    | (Inr r, w') \<Rightarrow>
                        (Inr None,
                         c\<lparr>side := sd, start_px := Some target, order_px := Some target,
                           order_id := map_option py_str r, placed_ts := Some (ts_ms q)\<rparr>, w'))))"
proof (intro conjI impI)
  show pl: "LiveExchangeClient_place_limit cl sd px sz po tif w =
           (case execute_limit_order (executor cl) (coin cl) False sz px w of
              (Inl e, w') \<Rightarrow> (Inl e, w')
            | (Inr None, w') \<Rightarrow> (Inr None, w')
            | (Inr (Some n), w') \<Rightarrow> (Inr (Some (py_str n)), w'))" for px sz w
    using nb by (simp add: LiveExchangeClient_place_limit_def)
  show "LiveExchangeClient_place_limit cl sd px sz po tif w =
           LiveExchangeClient_place_limit cl ''sell'' px sz po tif w"
    using nb by (simp add: LiveExchangeClient_place_limit_def)
  have same: "place_limit (ex c) sd = place_limit (ex c) ''sell''"
    using nb by (simp add: live live_gateway_def LiveExchangeClient_place_limit_def fun_eq_iff)
  show "on_quote (c\<lparr>side := sd\<rparr>) q w =
           (case on_quote (c\<lparr>side := ''sell''\<rparr>) q w of (r, c', w') \<Rightarrow> (r, c'\<lparr>side := sd\<rparr>, w'))"
    using on_quote_side_cong [of sd "''sell''" c q w] nb same by simp
  assume idle: "order_id c = None"
  show "on_quote (c\<lparr>side := sd\<rparr>) q w =
              (case round_to_tick c (ask_px q) of
                 Inl e \<Rightarrow> (Inl e, c\<lparr>side := sd\<rparr>, w)
               | Inr target \<Rightarrow>
                   (case execute_limit_order (executor cl) (coin cl) False (order_size c) target w of
                      (Inl e, w') \<Rightarrow>
                        (Inl e, c\<lparr>side := sd, start_px := Some target, order_px := Some target\<rparr>, w')
                    | (Inr r, w') \<Rightarrow>
                        (Inr None,
                         c\<lparr>side := sd, start_px := Some target, order_px := Some target,
                           order_id := map_option py_str r, placed_ts := Some (ts_ms q)\<rparr>, w')))"
    using nb idle
    by (simp add: on_quote_def Let_def live live_gateway_def LiveExchangeClient_place_limit_def
        split: sum.split prod.split option.split)
qed


theorem any_other_side_sells_witness:
  "''BUY'' \<noteq> ''buy'' \<and>
   on_quote
     ((LimitChaser_init (live_gateway live_example) (1 / 2) ''sell'' ORDER_SIZE True 1 5000 10)
        \<lparr>side := ''BUY''\<rparr>)
     (quote_at 1000 100) (Inr PNone, None) =
     (Inr None,
      (LimitChaser_init (live_gateway live_example) (1 / 2) ''sell'' ORDER_SIZE True 1 5000 10)
        \<lparr>side := ''BUY'', start_px := Some (201 / 2), order_px := Some (201 / 2),
         order_id := Some ''7'', placed_ts := Some 1000\<rparr>,
      Inr PNone, Some False)"
proof -
  let ?c = "LimitChaser_init (live_gateway live_example) (1 / 2) ''sell'' ORDER_SIZE True 1 5000 10"
  have nb: "''BUY'' \<noteq> ''buy''" by simp
  have f: "ex ?c = live_gateway live_example" "order_id ?c = None" "tick_size ?c = 1 / 2"
    "order_size ?c = ORDER_SIZE"
    by (simp_all add: LimitChaser_init_def)
  have t: "round_to_tick ?c (ask_px (quote_at 1000 100)) = Inr (201 / 2)"
    by (simp add: round_to_tick_def f fdiv_def fmul_def float_of_int_def)
  from any_other_side_sells [OF nb f(1), where q = "quote_at 1000 100" and w = "(Inr PNone, None)"] f(2)
  have "on_quote (?c\<lparr>side := ''BUY''\<rparr>) (quote_at 1000 100) (Inr PNone, None) =
      (case round_to_tick ?c (ask_px (quote_at 1000 100)) of
         Inl e \<Rightarrow> (Inl e, ?c\<lparr>side := ''BUY''\<rparr>, (Inr PNone, None))
       | Inr target \<Rightarrow>
           (case execute_limit_order (executor live_example) (coin live_example) False
                   (order_size ?c) target (Inr PNone, None) of
              (Inl e, w') \<Rightarrow>
                (Inl e, ?c\<lparr>side := ''BUY'', start_px := Some target, order_px := Some target\<rparr>, w')
            | (Inr r, w') \<Rightarrow>
                (Inr None,
                 ?c\<lparr>side := ''BUY'', start_px := Some target, order_px := Some target,
                   order_id := map_option py_str r,
                   placed_ts := Some (ts_ms (quote_at 1000 100))\<rparr>, w')))"
    by blast
  then show ?thesis
    unfolding t by (simp add: canned_fields py_str_7)
qed


section \<open>Polling for a fill\<close>



section \<open>The dispatcher\<close>

text \<open>
  C1, as stated, fails: \<^verbatim>\<open>last_check\<close> starts at 0, so for the quote with timestamp 0 the
  difference \<open>0 - 0\<close> is below the interval and the quote is discarded like those at 100
  and 400; the engine sees the quote at 600 only.
\<close>

theorem dispatcher_first_quote_counterexample:
  "map ts_ms (fst (snd (snd (consumer (logging (\<lambda>q (c, w). on_quote c q w)) REFRESH_INTERVAL_MS
      [quote_at 0 100, quote_at 100 100, quote_at 400 100, quote_at 600 100] 0
      ([], idle_example, replies [Inr (Some ''1'')] []))))) = [600] \<and>
   [600] \<noteq> [0, 600 :: int]"
  by (simp add: REFRESH_INTERVAL_MS_def logging_def example_first_placement)


text \<open>
  C1, amended: with \<^verbatim>\<open>last_check = 0\<close> and an interval of 500, of the quotes with
  timestamps 0, 100, 400 and 600 exactly the one at 600 is dispatched; the three others
  are discarded with no engine call and no change of state, whatever the engine is.
\<close>

theorem dispatcher_throttles:
  "consumer eng 500
     [q0\<lparr>ts_ms := 0\<rparr>, q1\<lparr>ts_ms := 100\<rparr>, q2\<lparr>ts_ms := 400\<rparr>, q3\<lparr>ts_ms := 600\<rparr>] 0 s =
     (case eng (q3\<lparr>ts_ms := 600\<rparr>) s of
        (Inl e, s') \<Rightarrow> (Raised e, 0, s')
      | (Inr out, s') \<Rightarrow>
          if out = Some ''filled'' \<or> out = Some ''aborted'' then (Returned (the out), 600, s')
          else (Waiting, 600, s')) \<and>
   fst (snd (snd (consumer (logging eng) 500
     [q0\<lparr>ts_ms := 0\<rparr>, q1\<lparr>ts_ms := 100\<rparr>, q2\<lparr>ts_ms := 400\<rparr>, q3\<lparr>ts_ms := 600\<rparr>] 0 ([], s))))
     = [q3\<lparr>ts_ms := 600\<rparr>]"
  by (simp add: logging_def split: prod.split sum.split)

section \<open>The chase scenario\<close>

text \<open>
  C4: tick size 0.5, side buy, tolerance 1 tick, maximal age 5000 ms, maximal chase 10
  ticks, starting Idle, placements accepted and orders unfilled.  A first quote with bid
  100.3 places an order at 100.0 and sets start and order price to 100.0.  A second quote
  200 ms later with bid 100.7 has target 100.5 and a drift of 1 tick: the order is
  cancelled and placed again at 100.5, the start price stays 100.0.  A third quote with
  bid 106.0 has a total chase of 12 ticks, above 10: the order is cancelled and the outcome
  is \<^verbatim>\<open>"aborted"\<close>.
\<close>

theorem chase_scenario:
  assumes q1: "bid_px q1 = fl (1003 / 10)"
    and q2: "bid_px q2 = fl (1007 / 10)" "ts_ms q2 = ts_ms q1 + 200"
    and q3: "bid_px q3 = 106"
    and place1: "place_limit g ''buy'' 100 sz po ''GTC'' w0 = (Inr (Some id1), w1)"
    and poll2: "poll_fill g id1 w1 = (Inr False, w2)"
    and cancel2: "cancel g id1 w2 = (Inr u2, w3)"
    and place2: "place_limit g ''buy'' (201 / 2) sz po ''GTC'' w3 = (Inr (Some id2), w4)"
    and poll3: "poll_fill g id2 w4 = (Inr False, w5)"
    and cancel3: "cancel g id2 w5 = (Inr u3, w6)"
  shows "on_quote (LimitChaser_init (recording g) (1 / 2) ''buy'' sz po 1 5000 10) q1 (w0, []) =
           (Inr None,
            (LimitChaser_init (recording g) (1 / 2) ''buy'' sz po 1 5000 10)
              \<lparr>order_id := Some id1, order_px := Some 100, start_px := Some 100,
               placed_ts := Some (ts_ms q1)\<rparr>,
            w1, [Place ''buy'' 100 sz po ''GTC'' (Inr (Some id1))]) \<and>
         round_to_tick (LimitChaser_init (recording g) (1 / 2) ''buy'' sz po 1 5000 10) (bid_px q2)
           = Inr (201 / 2) \<and>
         fdiv \<bar>fsub (201 / 2) 100\<bar> (1 / 2) = 1 \<and>
         on_quote
           ((LimitChaser_init (recording g) (1 / 2) ''buy'' sz po 1 5000 10)
              \<lparr>order_id := Some id1, order_px := Some 100, start_px := Some 100,
               placed_ts := Some (ts_ms q1)\<rparr>) q2 (w1, []) =
           (Inr None,
            (LimitChaser_init (recording g) (1 / 2) ''buy'' sz po 1 5000 10)
              \<lparr>order_id := Some id2, order_px := Some (201 / 2), start_px := Some 100,
               placed_ts := Some (ts_ms q1 + 200)\<rparr>,
            w4,
            [Poll id1 (Inr False), Cancel id1 (Inr u2),
             Place ''buy'' (201 / 2) sz po ''GTC'' (Inr (Some id2))]) \<and>
         round_to_tick (LimitChaser_init (recording g) (1 / 2) ''buy'' sz po 1 5000 10) (bid_px q3)
           = Inr 106 \<and>
         fdiv \<bar>fsub 106 100\<bar> (1 / 2) = 12 \<and>
         on_quote
           ((LimitChaser_init (recording g) (1 / 2) ''buy'' sz po 1 5000 10)
              \<lparr>order_id := Some id2, order_px := Some (201 / 2), start_px := Some 100,
               placed_ts := Some (ts_ms q1 + 200)\<rparr>) q3 (w4, []) =
           (Inr (Some ''aborted''),
            LimitChaser_init (recording g) (1 / 2) ''buy'' sz po 1 5000 10,
            w6, [Poll id2 (Inr False), Cancel id2 (Inr u3)])"
proof -
  let ?c0 = "LimitChaser_init (recording g) (1 / 2) ''buy'' sz po 1 5000 10"
  let ?c1 = "?c0\<lparr>order_id := Some id1, order_px := Some 100, start_px := Some 100,
               placed_ts := Some (ts_ms q1)\<rparr>"
  let ?c2 = "?c0\<lparr>order_id := Some id2, order_px := Some (201 / 2), start_px := Some 100,
               placed_ts := Some (ts_ms q1 + 200)\<rparr>"
  have f: "ex ?c0 = recording g" "tick_size ?c0 = 1 / 2" "side ?c0 = ''buy''"
    "order_size ?c0 = sz" "post_only ?c0 = po" "tolerance_ticks ?c0 = 1"
    "max_age_ms ?c0 = 5000" "max_chase_ticks ?c0 = 10" "order_id ?c0 = None"
    by (simp_all add: LimitChaser_init_def)
  have t1: "round_to_tick ?c0 (bid_px q1) = Inr 100"
    using floor_no_overflow [OF ticks_of_100_3]
    by (simp add: round_to_tick_def f q1 ticks_of_100_3 fmul_def float_of_int_def)
  have t2: "round_to_tick ?c0 (bid_px q2) = Inr (201 / 2)"
    using floor_no_overflow [OF ticks_of_100_7]
    by (simp add: round_to_tick_def f q2 ticks_of_100_7 fmul_def float_of_int_def)
  have t3: "round_to_tick ?c0 (bid_px q3) = Inr 106"
    by (simp add: round_to_tick_def f q3 fdiv_def fmul_def float_of_int_def)
  have drift: "fdiv \<bar>fsub (201 / 2) 100\<bar> (1 / 2) = 1"
    by (simp add: fdiv_def fsub_def)
  have total: "fdiv \<bar>fsub 106 100\<bar> (1 / 2) = 12"
    by (simp add: fdiv_def fsub_def)
  have drift3: "fdiv \<bar>fsub 106 (201 / 2)\<bar> (1 / 2) = 11"
    by (simp add: fdiv_def fsub_def)
  have s1: "on_quote ?c0 q1 (w0, []) =
      (Inr None, ?c1, w1, [Place ''buy'' 100 sz po ''GTC'' (Inr (Some id1))])"
  proof -
    have t: "round_to_tick ?c0 (if side ?c0 = ''buy'' then bid_px q1 else ask_px q1) = Inr 100"
      using t1 by (simp add: f)
    show ?thesis
      unfolding on_quote_idle [OF f(9) t]
      using recording_place [OF place1, of "[]"]
      by (simp add: f LimitChaser_init_def)
  qed
  have s2: "on_quote ?c1 q2 (w1, []) =
      (Inr None, ?c2, w4,
       [Poll id1 (Inr False), Cancel id1 (Inr u2),
        Place ''buy'' (201 / 2) sz po ''GTC'' (Inr (Some id2))])"
  proof -
    have t: "round_to_tick ?c1 (if side ?c1 = ''buy'' then bid_px q2 else ask_px q2)
               = Inr (201 / 2)"
      using t2 by (simp add: f)
    have o: "order_id ?c1 = Some id1" by simp
    have r: "resting ?c1" by (simp add: resting_def)
    have p: "poll_fill (ex ?c1) id1 (w1, []) = (Inr False, w2, [Poll id1 (Inr False)])"
      using recording_poll [OF poll2, of "[]"] by (simp add: f)
    have a: "\<not> abort_condition ?c1 (201 / 2)"
      by (simp add: abort_condition_def f drift)
    have rf: "refresh_condition ?c1 (201 / 2) (ts_ms q2)"
      by (simp add: refresh_condition_def f drift)
    show ?thesis
      unfolding on_quote_unfilled [OF o r t p]
      using a rf recording_cancel [OF cancel2, of "[Poll id1 (Inr False)]"]
        recording_place [OF place2, of "[Poll id1 (Inr False), Cancel id1 (Inr u2)]"]
      by (simp add: f q2 LimitChaser_init_def)
  qed
  have s3: "on_quote ?c2 q3 (w4, []) =
      (Inr (Some ''aborted''), ?c0, w6, [Poll id2 (Inr False), Cancel id2 (Inr u3)])"
  proof -
    have t: "round_to_tick ?c2 (if side ?c2 = ''buy'' then bid_px q3 else ask_px q3) = Inr 106"
      using t3 by (simp add: f)
    have o: "order_id ?c2 = Some id2" by simp
    have r: "resting ?c2" by (simp add: resting_def)
    have p: "poll_fill (ex ?c2) id2 (w4, []) = (Inr False, w5, [Poll id2 (Inr False)])"
      using recording_poll [OF poll3, of "[]"] by (simp add: f)
    have a: "abort_condition ?c2 106"
      by (simp add: abort_condition_def f total)
    show ?thesis
      unfolding on_quote_unfilled [OF o r t p]
      using a recording_cancel [OF cancel3, of "[Poll id2 (Inr False)]"]
      by (simp add: f reset_def LimitChaser_init_def)
  qed
  from s1 t2 drift s2 t3 total s3 show ?thesis by blast
qed


theorem chase_scenario_witness:
  "ts_ms (quote_at 1200 (fl (1007 / 10))) = ts_ms (quote_at 1000 (fl (1003 / 10))) + 200 \<and>
   on_quote (LimitChaser_init (recording scripted) (1 / 2) ''buy'' ORDER_SIZE True 1 5000 10)
     (quote_at 1000 (fl (1003 / 10))) (replies [Inr (Some ''1''), Inr (Some ''2'')] [], []) =
     (Inr None,
      (LimitChaser_init (recording scripted) (1 / 2) ''buy'' ORDER_SIZE True 1 5000 10)
        \<lparr>order_id := Some ''1'', order_px := Some 100, start_px := Some 100,
         placed_ts := Some 1000\<rparr>,
      replies [Inr (Some ''2'')] [],
      [Place ''buy'' 100 ORDER_SIZE True ''GTC'' (Inr (Some ''1''))]) \<and>
   on_quote
     ((LimitChaser_init (recording scripted) (1 / 2) ''buy'' ORDER_SIZE True 1 5000 10)
        \<lparr>order_id := Some ''1'', order_px := Some 100, start_px := Some 100,
         placed_ts := Some 1000\<rparr>)
     (quote_at 1200 (fl (1007 / 10))) (replies [Inr (Some ''2'')] [], []) =
     (Inr None,
      (LimitChaser_init (recording scripted) (1 / 2) ''buy'' ORDER_SIZE True 1 5000 10)
        \<lparr>order_id := Some ''2'', order_px := Some (201 / 2), start_px := Some 100,
         placed_ts := Some 1200\<rparr>,
      replies [] [],
      [Poll ''1'' (Inr False), Cancel ''1'' (Inr ()),
       Place ''buy'' (201 / 2) ORDER_SIZE True ''GTC'' (Inr (Some ''2''))]) \<and>
   on_quote
     ((LimitChaser_init (recording scripted) (1 / 2) ''buy'' ORDER_SIZE True 1 5000 10)
        \<lparr>order_id := Some ''2'', order_px := Some (201 / 2), start_px := Some 100,
         placed_ts := Some 1200\<rparr>)
     (quote_at 1800 106) (replies [] [], []) =
     (Inr (Some ''aborted''),
      LimitChaser_init (recording scripted) (1 / 2) ''buy'' ORDER_SIZE True 1 5000 10,
      replies [] [], [Poll ''2'' (Inr False), Cancel ''2'' (Inr ())])"
proof -
  have ts: "ts_ms (quote_at 1200 (fl (1007 / 10))) = ts_ms (quote_at 1000 (fl (1003 / 10))) + 200"
    by simp
  have t1: "ts_ms (quote_at 1000 (fl (1003 / 10))) = 1000" by simp
  note th = chase_scenario [of "quote_at 1000 (fl (1003 / 10))" "quote_at 1200 (fl (1007 / 10))"
      "quote_at 1800 106" scripted ORDER_SIZE True
      "replies [Inr (Some ''1''), Inr (Some ''2'')] []" "''1''" "replies [Inr (Some ''2'')] []"
      "replies [Inr (Some ''2'')] []" "()" "replies [Inr (Some ''2'')] []" "''2''"
      "replies [] []" "replies [] []" "()" "replies [] []",
      OF quote_at_fields(2) quote_at_fields(2) ts quote_at_fields(2)
        scripted_quiet(3) scripted_quiet(1) scripted_quiet(2) scripted_quiet(3)
        scripted_quiet(1) scripted_quiet(2), unfolded t1]
  from th ts show ?thesis
    by (simp del: quote_at_fields)
qed


end
